theory Spec2Isabelle
  imports Main "HOL-Library.Word" "HOL-Library.Multiset"
begin

unbundle bit_operations_syntax

section \<open>The ParkPass schema as a state machine\<close>

text \<open>
  The program is the migration \<^verbatim>\<open>supabase/migrations/20250619144511_sunny_term.sql\<close>:
  eight tables with their column defaults, CHECK, UNIQUE and FOREIGN KEY constraints, the
  row-level security policies of the role \<^verbatim>\<open>authenticated\<close>, two trigger functions
  and the function \<^verbatim>\<open>generate_booking_code()\<close>. The TypeScript client (\<^verbatim>\<open>src/lib/supabase.ts\<close>) declares the row types,
  signs users up (passing \<^verbatim>\<open>name\<close> and \<^verbatim>\<open>role\<close> as metadata) and updates the caller's
  own profile; every rule about bookings lives in the migration.

  A statement is modelled as a function from the database to either an error or the new
  database. A failed statement is rolled back as a whole, so an error carries no database.
  The acting user is a user of the role \<^verbatim>\<open>authenticated\<close>, and \<^verbatim>\<open>auth.uid()\<close> is passed
  explicitly. A statement is first rewritten: the policies of its relation are added to
  it, and the policies of every relation a policy sub-selects from, in turn; a relation
  met again while its own policies are being added ends the statement with the error
  "infinite recursion detected in policy". Only then are the values converted to the
  column types, the policy expressions, CHECK constraints, unique indexes and foreign keys
  evaluated. Inside a policy, a sub-select sees only the rows the acting user may read;
  each sub-select of the migration compares \<^verbatim>\<open>user_id\<close> or \<^verbatim>\<open>owner_id\<close> with
  \<^verbatim>\<open>auth.uid()\<close>, which the read policies of the inner relation admit, so it ranges over
  the whole inner table. Statements carry no RETURNING clause. Roles that bypass row-level
  security and the unauthenticated role (which no policy names) are not modelled.

  Columns declared NOT NULL have a plain type (NULL is excluded by the type), nullable
  columns an \<open>option\<close> type. \<^verbatim>\<open>uuid\<close> is a 128-bit word. \<^verbatim>\<open>integer\<close>, \<^verbatim>\<open>decimal(10, 2)\<close>
  (counted in hundredths, the value after rounding to two decimals) and \<^verbatim>\<open>timestamptz\<close>
  (microseconds from 2000-01-01, the two infinities at the ends of the 64-bit range) are
  \<open>int\<close>; a value outside the column's range is an error of the statement that brings
  it. The value \<^verbatim>\<open>NaN\<close>, which \<^verbatim>\<open>decimal\<close> admits, is not modelled. Columns that no
  CHECK, UNIQUE or FOREIGN KEY constraint, policy or trigger reads (such as \<^verbatim>\<open>notes\<close>,
  \<^verbatim>\<open>payment_method\<close> and \<^verbatim>\<open>created_at\<close>) are left out of the records: a statement of the
  model leaves them to their defaults.
\<close>

subsection \<open>Enum types\<close>

datatype user_role = User | Owner | Admin
datatype booking_status = Pending | Confirmed | Active | Completed | Cancelled
datatype payment_status = PaymentPending | Verified | Rejected
datatype availability_status = Available | Blocked | Maintenance

text \<open>The tables of the migration, as relations that policies belong to and select from.\<close>

datatype relation =
  Profiles | ParkingSpots | Vehicles | PaymentMethods | Bookings | PaymentSlips | Reviews
  | AvailabilityBlocks

type_synonym uuid = "128 word"
type_synonym timestamptz = int

subsection \<open>Tables\<close>

record auth_user =
  au_id :: uuid
  au_email :: "string option"
  au_raw_user_meta_data :: "(string \<times> string) list"

record profile =
  pr_id :: uuid
  pr_email :: string
  pr_name :: string
  pr_role :: "user_role option"

record parking_spot =
  ps_id :: uuid
  ps_owner_id :: uuid
  ps_total_slots :: int
  ps_available_slots :: int
  ps_price :: int
  ps_images :: "string list"
  ps_is_active :: "bool option"
  ps_updated_at :: "timestamptz option"

record vehicle =
  v_id :: uuid
  v_user_id :: uuid
  v_license_plate :: string

record booking =
  b_id :: uuid
  b_user_id :: uuid
  b_spot_id :: uuid
  b_vehicle_id :: "uuid option"
  b_start_time :: timestamptz
  b_end_time :: timestamptz
  b_total_cost :: int
  b_status :: "booking_status option"
  b_payment_status :: "payment_status option"
  b_qr_code :: string
  b_pin :: string
  b_confirmed_at :: "timestamptz option"

record payment_slip =
  sl_id :: uuid
  sl_booking_id :: uuid
  sl_image_url :: string
  sl_status :: "payment_status option"
  sl_verified_by :: "uuid option"
  sl_verified_at :: "timestamptz option"

record review =
  rv_id :: uuid
  rv_booking_id :: uuid
  rv_user_id :: uuid
  rv_spot_id :: uuid
  rv_rating :: int

record availability_block =
  ab_id :: uuid
  ab_spot_id :: uuid
  ab_start_time :: timestamptz
  ab_end_time :: timestamptz
  ab_status :: availability_status
  ab_slots_affected :: int
  ab_created_by :: uuid

record db =
  auth_users :: "auth_user list"
  profiles :: "profile list"
  parking_spots :: "parking_spot list"
  vehicles :: "vehicle list"
  bookings :: "booking list"
  payment_slips :: "payment_slip list"
  reviews :: "review list"
  availability_blocks :: "availability_block list"

text \<open>The state right after the migration: its tables are empty; \<^verbatim>\<open>auth.users\<close> belongs
  to the identity service and may already hold rows.\<close>

definition initial_db :: "auth_user list \<Rightarrow> db" where
  "initial_db us = \<lparr>auth_users = us, profiles = [], parking_spots = [], vehicles = [],
     bookings = [], payment_slips = [], reviews = [], availability_blocks = []\<rparr>"

subsection \<open>Errors and the statement environment\<close>

datatype error =
    RlsViolation string
  | CheckViolation string
  | UniqueViolation string
  | ForeignKeyViolation string
  | NotNullViolation string
  | InvalidEnumValue string
  | OutOfRange string
  | PolicyRecursion relation

text \<open>A column of an INSERT is either left to its DEFAULT or given.\<close>

datatype 'a column = DEFAULT | Given 'a

fun column_value :: "'a \<Rightarrow> 'a column \<Rightarrow> 'a" where
  "column_value d DEFAULT = d"
| "column_value d (Given x) = x"

text \<open>A \<^verbatim>\<open>double precision\<close> value in \<open>[0, 1)\<close> is \<open>m / 2 ^ k\<close> for a significand
  \<open>m\<close> of at most 53 bits; every such value has this form with \<open>k \<le> 1074\<close>.\<close>

record unit_double =
  ud_m :: nat
  ud_k :: nat

definition is_unit_double :: "unit_double \<Rightarrow> bool" where
  "is_unit_double r = (ud_m r < 2 ^ 53 \<and> ud_m r < 2 ^ ud_k r \<and> ud_k r \<le> 1074)"

text \<open>What the volatile functions of the defaults return during one statement:
  \<^verbatim>\<open>now()\<close>, \<^verbatim>\<open>gen_random_uuid()\<close>, the byte source behind \<^verbatim>\<open>gen_random_bytes\<close>, and
  \<^verbatim>\<open>random()\<close>, a \<^verbatim>\<open>double precision\<close> value in \<open>[0, 1)\<close>.\<close>

record env =
  env_now :: timestamptz
  env_uuid :: uuid
  env_bytes :: "nat \<Rightarrow> 8 word"
  env_random :: unit_double

subsection \<open>The defaults of \<^verbatim>\<open>bookings.qr_code\<close> and \<^verbatim>\<open>bookings.pin\<close>\<close>

definition gen_random_bytes :: "nat \<Rightarrow> (nat \<Rightarrow> 8 word) \<Rightarrow> 8 word list" where
  "gen_random_bytes n src = map src [0..<n]"

definition hex_digit :: "nat \<Rightarrow> char" where
  "hex_digit d = ''0123456789abcdef'' ! d"

text \<open>\<^verbatim>\<open>encode(bytes, 'hex')\<close>: two lower-case hexadecimal digits per byte, high nibble
  first.\<close>

definition encode_hex :: "8 word list \<Rightarrow> string" where
  "encode_hex bs =
     concat (map (\<lambda>b. [hex_digit (unat (drop_bit 4 b)), hex_digit (unat (b AND 15))]) bs)"

definition qr_code_default :: "env \<Rightarrow> string" where
  "qr_code_default e = encode_hex (gen_random_bytes 16 (env_bytes e))"

definition digit_char :: "nat \<Rightarrow> char" where
  "digit_char d = ''0123456789'' ! d"

fun text_of_nat :: "nat \<Rightarrow> string" where
  "text_of_nat n =
     (if n < 10 then [digit_char n] else text_of_nat (n div 10) @ [digit_char (n mod 10)])"

declare text_of_nat.simps [simp del]

text \<open>The cast \<^verbatim>\<open>::text\<close> of a whole number.\<close>

definition text_of_int :: "int \<Rightarrow> string" where
  "text_of_int i = (if i < 0 then CHR ''-'' # text_of_nat (nat (- i)) else text_of_nat (nat i))"

text \<open>\<^verbatim>\<open>lpad(s, n, fill)\<close>: \<open>s\<close> cut to \<open>n\<close> characters when it is longer, else filled on
  the left with repetitions of \<open>fill\<close>; an empty \<open>fill\<close> adds nothing.\<close>

definition lpad :: "string \<Rightarrow> nat \<Rightarrow> string \<Rightarrow> string" where
  "lpad s n fill =
     (if n \<le> length s then take n s
      else if fill = [] then s
      else take (n - length s) (concat (replicate (n - length s) fill)) @ s)"

text \<open>\<^verbatim>\<open>random() * 10000\<close> is a \<^verbatim>\<open>double precision\<close> product: the exact product
  \<open>m * 10000 / 2 ^ k\<close> rounded to 53 significant bits, to the nearest value and at a tie
  to the even significand. \<open>round_to_53_bits\<close> rounds the numerator, the denominator
  stays \<open>2 ^ k\<close>; \<^verbatim>\<open>floor\<close> then drops the fraction.\<close>

fun bit_length :: "nat \<Rightarrow> nat" where
  "bit_length n = (if n = 0 then 0 else Suc (bit_length (n div 2)))"

declare bit_length.simps [simp del]

definition round_to_53_bits :: "nat \<Rightarrow> nat" where
  "round_to_53_bits n =
     (let s = bit_length n - 53; q = n div 2 ^ s; r = n mod 2 ^ s in
      if s = 0 then n
      else if 2 * r > 2 ^ s \<or> (2 * r = 2 ^ s \<and> odd q) then (q + 1) * 2 ^ s
      else q * 2 ^ s)"

definition floor_random_times_10000 :: "unit_double \<Rightarrow> nat" where
  "floor_random_times_10000 r = round_to_53_bits (ud_m r * 10000) div 2 ^ ud_k r"

definition pin_default :: "env \<Rightarrow> string" where
  "pin_default e = lpad (text_of_int (int (floor_random_times_10000 (env_random e)))) 4 ''0''"

text \<open>\<^verbatim>\<open>generate_booking_code()\<close>: defined by the migration, called by none of its defaults
  or triggers. \<open>ymd\<close> is \<^verbatim>\<open>to_char(now(), 'YYYYMMDD')\<close> and \<open>u\<close> the text of
  \<^verbatim>\<open>gen_random_uuid()\<close>.\<close>

definition upper_char :: "char \<Rightarrow> char" where
  "upper_char c =
     (let n = (of_char c :: nat) in if 97 \<le> n \<and> n \<le> 122 then char_of (n - 32) else c)"

definition generate_booking_code :: "string \<Rightarrow> string \<Rightarrow> string" where
  "generate_booking_code ymd u = ''PB'' @ ymd @ ''-'' @ map upper_char (take 8 u)"

subsection \<open>Column ranges\<close>

definition integer_in_range :: "int \<Rightarrow> bool" where
  "integer_in_range x = (- 2147483648 \<le> x \<and> x \<le> 2147483647)"

text \<open>\<^verbatim>\<open>decimal(10, 2)\<close>: ten digits, two of them after the point, so fewer than
  \<open>10 ^ 10\<close> hundredths in absolute value.\<close>

definition decimal_10_2_in_range :: "int \<Rightarrow> bool" where
  "decimal_10_2_in_range c = (\<bar>c\<bar> < 10000000000)"

text \<open>\<^verbatim>\<open>timestamptz\<close>: from 4713 BC up to, not including, the year 294277, or one of
  \<^verbatim>\<open>-infinity\<close> and \<^verbatim>\<open>infinity\<close>.\<close>

definition timestamptz_in_range :: "timestamptz \<Rightarrow> bool" where
  "timestamptz_in_range t =
     (t = - 9223372036854775808 \<or> t = 9223372036854775807 \<or>
      (- 211813488000000000 \<le> t \<and> t < 9223371331200000000))"

definition timestamptz_option_in_range :: "timestamptz option \<Rightarrow> bool" where
  "timestamptz_option_in_range t = (case t of None \<Rightarrow> True | Some x \<Rightarrow> timestamptz_in_range x)"

subsection \<open>The policies and their expansion\<close>

text \<open>Every \<^verbatim>\<open>CREATE POLICY\<close> of the migration, in its order: name, relation, command,
  and the relations its expression sub-selects from.\<close>

datatype policy_command = ForSelect | ForInsert | ForUpdate | ForDelete | ForAll

record policy =
  p_name :: string
  p_relation :: relation
  p_command :: policy_command
  p_sublinks :: "relation list"

definition policies :: "policy list" where
  "policies =
     [\<lparr>p_name = ''Users can read own profile'', p_relation = Profiles,
        p_command = ForSelect, p_sublinks = []\<rparr>,
      \<lparr>p_name = ''Users can update own profile'', p_relation = Profiles,
        p_command = ForUpdate, p_sublinks = []\<rparr>,
      \<lparr>p_name = ''Admins can read all profiles'', p_relation = Profiles,
        p_command = ForSelect, p_sublinks = [Profiles]\<rparr>,
      \<lparr>p_name = ''Anyone can read active parking spots'', p_relation = ParkingSpots,
        p_command = ForSelect, p_sublinks = []\<rparr>,
      \<lparr>p_name = ''Owners can manage their spots'', p_relation = ParkingSpots,
        p_command = ForAll, p_sublinks = []\<rparr>,
      \<lparr>p_name = ''Admins can read all spots'', p_relation = ParkingSpots,
        p_command = ForSelect, p_sublinks = [Profiles]\<rparr>,
      \<lparr>p_name = ''Users can manage their vehicles'', p_relation = Vehicles,
        p_command = ForAll, p_sublinks = []\<rparr>,
      \<lparr>p_name = ''Owners can manage their payment methods'', p_relation = PaymentMethods,
        p_command = ForAll, p_sublinks = []\<rparr>,
      \<lparr>p_name = ''Users can read their bookings'', p_relation = Bookings,
        p_command = ForSelect, p_sublinks = []\<rparr>,
      \<lparr>p_name = ''Users can create bookings'', p_relation = Bookings,
        p_command = ForInsert, p_sublinks = []\<rparr>,
      \<lparr>p_name = ''Users can update their pending bookings'', p_relation = Bookings,
        p_command = ForUpdate, p_sublinks = []\<rparr>,
      \<lparr>p_name = ''Spot owners can read bookings for their spots'', p_relation = Bookings,
        p_command = ForSelect, p_sublinks = [ParkingSpots]\<rparr>,
      \<lparr>p_name = ''Spot owners can update booking status'', p_relation = Bookings,
        p_command = ForUpdate, p_sublinks = [ParkingSpots]\<rparr>,
      \<lparr>p_name = ''Users can manage slips for their bookings'', p_relation = PaymentSlips,
        p_command = ForAll, p_sublinks = [Bookings]\<rparr>,
      \<lparr>p_name = ''Spot owners can read slips for their spots'', p_relation = PaymentSlips,
        p_command = ForSelect, p_sublinks = [Bookings, ParkingSpots]\<rparr>,
      \<lparr>p_name = ''Spot owners can verify payment slips'', p_relation = PaymentSlips,
        p_command = ForUpdate, p_sublinks = [Bookings, ParkingSpots]\<rparr>,
      \<lparr>p_name = ''Anyone can read reviews'', p_relation = Reviews,
        p_command = ForSelect, p_sublinks = []\<rparr>,
      \<lparr>p_name = ''Users can create reviews for their completed bookings'',
        p_relation = Reviews, p_command = ForInsert, p_sublinks = [Bookings]\<rparr>,
      \<lparr>p_name = ''Anyone can read availability blocks'', p_relation = AvailabilityBlocks,
        p_command = ForSelect, p_sublinks = []\<rparr>,
      \<lparr>p_name = ''Spot owners can manage availability blocks'',
        p_relation = AvailabilityBlocks, p_command = ForAll, p_sublinks = [ParkingSpots]\<rparr>]"

text \<open>The relations that the policies of \<open>r\<close> for the commands \<open>cs\<close> (and FOR ALL)
  sub-select from.\<close>

definition sublinks_of :: "relation \<Rightarrow> policy_command list \<Rightarrow> relation list" where
  "sublinks_of r cs =
     concat (map p_sublinks
       (filter (\<lambda>p. p_relation p = r \<and> (p_command p = ForAll \<or> p_command p \<in> set cs))
          policies))"

definition all_relations :: "relation list" where
  "all_relations =
     [Profiles, ParkingSpots, Vehicles, PaymentMethods, Bookings, PaymentSlips, Reviews,
      AvailabilityBlocks]"

fun first_some :: "'a option list \<Rightarrow> 'a option" where
  "first_some [] = None"
| "first_some (None # xs) = first_some xs"
| "first_some (Some x # xs) = Some x"

text \<open>A relation read by a sub-select gets its read policies. When they hold sub-selects
  and the relation is already being expanded, the rewriter stops with the error, naming
  the relation; otherwise it goes on into their sub-selects with the relation marked
  active. The marked relations grow with every step, which bounds the descent.\<close>

function expand_sub_select :: "relation list \<Rightarrow> relation \<Rightarrow> relation option" where
  "expand_sub_select active r =
     (let ls = sublinks_of r [ForSelect] in
      if ls = [] then None
      else if r \<in> set active then Some r
      else first_some (map (expand_sub_select (r # active)) ls))"
  by pat_completeness auto
termination
proof (relation "measure (\<lambda>(active, r). length (filter (\<lambda>x. x \<notin> set active) all_relations))")
  show "wf (measure (\<lambda>(active, r). length (filter (\<lambda>x. x \<notin> set active) all_relations)))"
    by simp
next
  fix active :: "relation list" and r :: relation and ls :: "relation list" and x :: relation
  assume fresh: "r \<notin> set active"
  have less: "length (filter (\<lambda>y. y \<notin> set (r # active)) xs) <
      length (filter (\<lambda>y. y \<notin> set active) xs)" if "r \<in> set xs" for xs
    using that
  proof (induction xs)
    case Nil
    then show ?case by simp
  next
    case (Cons a xs)
    have le: "length (filter (\<lambda>y. y \<notin> set (r # active)) xs) \<le>
        length (filter (\<lambda>y. y \<notin> set active) xs)"
      by (induction xs) auto
    show ?case
    proof (cases "a = r")
      case True
      with fresh le show ?thesis by simp
    next
      case False
      with Cons have "length (filter (\<lambda>y. y \<notin> set (r # active)) xs) <
          length (filter (\<lambda>y. y \<notin> set active) xs)" by simp
      with False show ?thesis by simp
    qed
  qed
  have "r \<in> set all_relations" by (cases r) (simp_all add: all_relations_def)
  from less [OF this]
  show "((r # active, x), (active, r)) \<in>
      measure (\<lambda>(active, r). length (filter (\<lambda>x. x \<notin> set active) all_relations))"
    by simp
qed

declare expand_sub_select.simps [simp del]

text \<open>The rewrite of a statement with command \<open>c\<close> on relation \<open>r\<close>: the policies for
  \<open>c\<close>, and the read policies too when the statement reads columns of \<open>r\<close> (a WHERE
  clause). \<open>None\<close>: no recursion.\<close>

definition rewrite_policies :: "policy_command \<Rightarrow> bool \<Rightarrow> relation \<Rightarrow> relation option" where
  "rewrite_policies c reads r =
     (let ls = sublinks_of r (if reads then [c, ForSelect] else [c]) in
      if ls = [] then None else first_some (map (expand_sub_select [r]) ls))"

subsection \<open>Row-level security policies\<close>

text \<open>Each definition is one \<^verbatim>\<open>CREATE POLICY\<close>, named after it; \<open>uid\<close> is
  \<^verbatim>\<open>auth.uid()\<close>. \<^verbatim>\<open>EXISTS (SELECT 1 FROM t WHERE c)\<close> is \<open>list_ex c\<close> over the rows of
  \<open>t\<close>. A comparison with a NULL column is not true, so a NULL status satisfies no
  policy that tests the status.\<close>

definition users_can_update_own_profile :: "uuid \<Rightarrow> profile \<Rightarrow> bool" where
  "users_can_update_own_profile uid p = (uid = pr_id p)"

definition owners_can_manage_their_spots :: "uuid \<Rightarrow> parking_spot \<Rightarrow> bool" where
  "owners_can_manage_their_spots uid s = (ps_owner_id s = uid)"

definition users_can_manage_their_vehicles :: "uuid \<Rightarrow> vehicle \<Rightarrow> bool" where
  "users_can_manage_their_vehicles uid v = (v_user_id v = uid)"

definition users_can_create_bookings :: "uuid \<Rightarrow> booking \<Rightarrow> bool" where
  "users_can_create_bookings uid b = (b_user_id b = uid)"

definition users_can_update_their_pending_bookings :: "uuid \<Rightarrow> booking \<Rightarrow> bool" where
  "users_can_update_their_pending_bookings uid b =
     (b_user_id b = uid \<and> b_status b = Some Pending)"

definition spot_owners_can_update_booking_status :: "db \<Rightarrow> uuid \<Rightarrow> booking \<Rightarrow> bool" where
  "spot_owners_can_update_booking_status d uid b =
     list_ex (\<lambda>s. ps_id s = b_spot_id b \<and> ps_owner_id s = uid) (parking_spots d)"

definition users_can_manage_slips_for_their_bookings :: "db \<Rightarrow> uuid \<Rightarrow> payment_slip \<Rightarrow> bool" where
  "users_can_manage_slips_for_their_bookings d uid sl =
     list_ex (\<lambda>b. b_id b = sl_booking_id sl \<and> b_user_id b = uid) (bookings d)"

definition spot_owners_can_verify_payment_slips :: "db \<Rightarrow> uuid \<Rightarrow> payment_slip \<Rightarrow> bool" where
  "spot_owners_can_verify_payment_slips d uid sl =
     list_ex (\<lambda>b. list_ex (\<lambda>ps. b_spot_id b = ps_id ps \<and> b_id b = sl_booking_id sl \<and>
                                 ps_owner_id ps = uid) (parking_spots d)) (bookings d)"

definition users_can_create_reviews_for_their_completed_bookings ::
  "db \<Rightarrow> uuid \<Rightarrow> review \<Rightarrow> bool" where
  "users_can_create_reviews_for_their_completed_bookings d uid r =
     (rv_user_id r = uid \<and>
      list_ex (\<lambda>b. b_id b = rv_booking_id r \<and> b_user_id b = uid \<and> b_status b = Some Completed)
        (bookings d))"

definition spot_owners_can_manage_availability_blocks ::
  "db \<Rightarrow> uuid \<Rightarrow> availability_block \<Rightarrow> bool" where
  "spot_owners_can_manage_availability_blocks d uid a =
     list_ex (\<lambda>s. ps_id s = ab_spot_id a \<and> ps_owner_id s = uid) (parking_spots d)"

subsection \<open>CHECK constraints\<close>

definition valid_slots :: "parking_spot \<Rightarrow> bool" where
  "valid_slots s = (ps_available_slots s \<le> ps_total_slots s \<and> ps_available_slots s \<ge> 0)"

definition valid_price :: "parking_spot \<Rightarrow> bool" where
  "valid_price s = (ps_price s > 0)"

text \<open>\<^verbatim>\<open>array_length(a, 1)\<close> is NULL for an empty array, and a CHECK whose expression is
  NULL is satisfied.\<close>

definition array_length :: "'a list \<Rightarrow> nat option" where
  "array_length a = (if a = [] then None else Some (length a))"

definition valid_images :: "parking_spot \<Rightarrow> bool" where
  "valid_images s =
     (case array_length (ps_images s) of None \<Rightarrow> True | Some n \<Rightarrow> n \<ge> 1 \<and> n \<le> 3)"

definition valid_booking_time :: "booking \<Rightarrow> bool" where
  "valid_booking_time b = (b_end_time b > b_start_time b)"

definition valid_cost :: "booking \<Rightarrow> bool" where
  "valid_cost b = (b_total_cost b > 0)"

definition rating_check :: "review \<Rightarrow> bool" where
  "rating_check r = (rv_rating r \<ge> 1 \<and> rv_rating r \<le> 5)"

definition valid_block_time :: "availability_block \<Rightarrow> bool" where
  "valid_block_time a = (ab_end_time a > ab_start_time a)"

subsection \<open>Rows within the ranges of their column types\<close>

definition parking_spot_in_range :: "parking_spot \<Rightarrow> bool" where
  "parking_spot_in_range s =
     (integer_in_range (ps_total_slots s) \<and> integer_in_range (ps_available_slots s) \<and>
      decimal_10_2_in_range (ps_price s) \<and> timestamptz_option_in_range (ps_updated_at s))"

definition booking_in_range :: "booking \<Rightarrow> bool" where
  "booking_in_range b =
     (timestamptz_in_range (b_start_time b) \<and> timestamptz_in_range (b_end_time b) \<and>
      decimal_10_2_in_range (b_total_cost b) \<and> timestamptz_option_in_range (b_confirmed_at b))"

definition payment_slip_in_range :: "payment_slip \<Rightarrow> bool" where
  "payment_slip_in_range sl = timestamptz_option_in_range (sl_verified_at sl)"

definition review_in_range :: "review \<Rightarrow> bool" where
  "review_in_range r = integer_in_range (rv_rating r)"

definition availability_block_in_range :: "availability_block \<Rightarrow> bool" where
  "availability_block_in_range a =
     (timestamptz_in_range (ab_start_time a) \<and> timestamptz_in_range (ab_end_time a) \<and>
      integer_in_range (ab_slots_affected a))"

subsection \<open>Statements on \<^verbatim>\<open>parking_spots\<close>\<close>

text \<open>An INSERT fills the defaults, then checks, in PostgreSQL's order, the WITH CHECK
  of the policies (a policy with only USING takes it as its WITH CHECK), the CHECK
  constraints, the unique indexes and, at the end of the statement, the foreign keys.\<close>

record parking_spot_insert =
  psi_id :: "uuid column"
  psi_owner_id :: uuid
  psi_total_slots :: "int column"
  psi_available_slots :: "int column"
  psi_price :: int
  psi_images :: "string list column"
  psi_is_active :: "bool option column"
  psi_updated_at :: "timestamptz option column"

definition parking_spot_row :: "env \<Rightarrow> parking_spot_insert \<Rightarrow> parking_spot" where
  "parking_spot_row e i =
     \<lparr>ps_id = column_value (env_uuid e) (psi_id i),
      ps_owner_id = psi_owner_id i,
      ps_total_slots = column_value 1 (psi_total_slots i),
      ps_available_slots = column_value 1 (psi_available_slots i),
      ps_price = psi_price i,
      ps_images = column_value [] (psi_images i),
      ps_is_active = column_value (Some True) (psi_is_active i),
      ps_updated_at = column_value (Some (env_now e)) (psi_updated_at i)\<rparr>"

definition insert_parking_spot :: "env \<Rightarrow> uuid \<Rightarrow> parking_spot_insert \<Rightarrow> db \<Rightarrow> error + db" where
  "insert_parking_spot e uid i d =
     (case rewrite_policies ForInsert False ParkingSpots of
        Some rel \<Rightarrow> Inl (PolicyRecursion rel)
      | None \<Rightarrow>
        (let s = parking_spot_row e i in
         if \<not> parking_spot_in_range s then Inl (OutOfRange ''parking_spots'')
         else if \<not> owners_can_manage_their_spots uid s then Inl (RlsViolation ''parking_spots'')
         else if \<not> valid_images s then Inl (CheckViolation ''valid_images'')
         else if \<not> valid_price s then Inl (CheckViolation ''valid_price'')
         else if \<not> valid_slots s then Inl (CheckViolation ''valid_slots'')
         else if ps_id s \<in> set (map ps_id (parking_spots d))
           then Inl (UniqueViolation ''parking_spots.id'')
         else if ps_owner_id s \<notin> set (map pr_id (profiles d))
           then Inl (ForeignKeyViolation ''parking_spots.owner_id'')
         else Inr (d\<lparr>parking_spots := parking_spots d @ [s]\<rparr>)))"

text \<open>\<^verbatim>\<open>UPDATE parking_spots SET ... WHERE id = sid\<close>, the SET clause given as a function on
  the row. A row the USING expressions hide is skipped without an error (zero rows); the
  new row must pass the WITH CHECK, every CHECK constraint and the unique index; a changed
  foreign key must point to a row, and a changed \<open>id\<close> must not be referenced (the
  referencing keys have no ON UPDATE action). The result counts the rows updated.\<close>

definition update_parking_spot ::
  "uuid \<Rightarrow> uuid \<Rightarrow> (parking_spot \<Rightarrow> parking_spot) \<Rightarrow> db \<Rightarrow> error + nat \<times> db" where
  "update_parking_spot uid sid f d =
     (case rewrite_policies ForUpdate True ParkingSpots of
        Some rel \<Rightarrow> Inl (PolicyRecursion rel)
      | None \<Rightarrow>
        (case find (\<lambda>s. ps_id s = sid) (parking_spots d) of
           None \<Rightarrow> Inr (0, d)
         | Some s \<Rightarrow>
             if \<not> owners_can_manage_their_spots uid s then Inr (0, d)
             else
               let s' = f s; others = filter (\<lambda>x. ps_id x \<noteq> sid) (parking_spots d) in
               if \<not> parking_spot_in_range s' then Inl (OutOfRange ''parking_spots'')
               else if \<not> owners_can_manage_their_spots uid s' then Inl (RlsViolation ''parking_spots'')
               else if \<not> valid_images s' then Inl (CheckViolation ''valid_images'')
               else if \<not> valid_price s' then Inl (CheckViolation ''valid_price'')
               else if \<not> valid_slots s' then Inl (CheckViolation ''valid_slots'')
               else if ps_id s' \<in> set (map ps_id others)
                 then Inl (UniqueViolation ''parking_spots.id'')
               else if ps_owner_id s' \<noteq> ps_owner_id s \<and> ps_owner_id s' \<notin> set (map pr_id (profiles d))
                 then Inl (ForeignKeyViolation ''parking_spots.owner_id'')
               else if ps_id s' \<noteq> sid \<and>
                   (sid \<in> set (map b_spot_id (bookings d)) \<or> sid \<in> set (map rv_spot_id (reviews d)) \<or>
                    sid \<in> set (map ab_spot_id (availability_blocks d)))
                 then Inl (ForeignKeyViolation ''parking_spots.id'')
               else Inr (1, d\<lparr>parking_spots :=
                      map (\<lambda>x. if ps_id x = sid then s' else x) (parking_spots d)\<rparr>)))"

text \<open>\<^verbatim>\<open>DELETE FROM parking_spots WHERE id = sid\<close>. Every key that references a spot or a
  booking is ON DELETE CASCADE: the spot's bookings, reviews and availability blocks go
  with it, and with each booking its payment slip and its review. A row the USING
  expression hides is skipped.\<close>

definition delete_parking_spot :: "uuid \<Rightarrow> uuid \<Rightarrow> db \<Rightarrow> error + nat \<times> db" where
  "delete_parking_spot uid sid d =
     (case rewrite_policies ForDelete True ParkingSpots of
        Some rel \<Rightarrow> Inl (PolicyRecursion rel)
      | None \<Rightarrow>
        (case find (\<lambda>s. ps_id s = sid) (parking_spots d) of
           None \<Rightarrow> Inr (0, d)
         | Some s \<Rightarrow>
             if \<not> owners_can_manage_their_spots uid s then Inr (0, d)
             else
               let gone = map b_id (filter (\<lambda>b. b_spot_id b = sid) (bookings d)) in
               Inr (1, d\<lparr>parking_spots := filter (\<lambda>x. ps_id x \<noteq> sid) (parking_spots d),
                        bookings := filter (\<lambda>b. b_spot_id b \<noteq> sid) (bookings d),
                        payment_slips :=
                          filter (\<lambda>sl. sl_booking_id sl \<notin> set gone) (payment_slips d),
                        reviews :=
                          filter (\<lambda>r. rv_spot_id r \<noteq> sid \<and> rv_booking_id r \<notin> set gone) (reviews d),
                        availability_blocks :=
                          filter (\<lambda>a. ab_spot_id a \<noteq> sid) (availability_blocks d)\<rparr>)))"

subsection \<open>Statements on \<^verbatim>\<open>vehicles\<close> and \<^verbatim>\<open>availability_blocks\<close>\<close>

record vehicle_insert =
  vi_id :: "uuid column"
  vi_user_id :: uuid
  vi_license_plate :: string

definition vehicle_row :: "env \<Rightarrow> vehicle_insert \<Rightarrow> vehicle" where
  "vehicle_row e i =
     \<lparr>v_id = column_value (env_uuid e) (vi_id i), v_user_id = vi_user_id i,
      v_license_plate = vi_license_plate i\<rparr>"

definition insert_vehicle :: "env \<Rightarrow> uuid \<Rightarrow> vehicle_insert \<Rightarrow> db \<Rightarrow> error + db" where
  "insert_vehicle e uid i d =
     (case rewrite_policies ForInsert False Vehicles of
        Some rel \<Rightarrow> Inl (PolicyRecursion rel)
      | None \<Rightarrow>
        (let v = vehicle_row e i in
         if \<not> users_can_manage_their_vehicles uid v then Inl (RlsViolation ''vehicles'')
         else if v_id v \<in> set (map v_id (vehicles d)) then Inl (UniqueViolation ''vehicles.id'')
         else if (v_user_id v, v_license_plate v) \<in>
             set (map (\<lambda>x. (v_user_id x, v_license_plate x)) (vehicles d))
           then Inl (UniqueViolation ''vehicles.user_id, license_plate'')
         else if v_user_id v \<notin> set (map pr_id (profiles d))
           then Inl (ForeignKeyViolation ''vehicles.user_id'')
         else Inr (d\<lparr>vehicles := vehicles d @ [v]\<rparr>)))"

record availability_block_insert =
  abi_id :: "uuid column"
  abi_spot_id :: uuid
  abi_start_time :: timestamptz
  abi_end_time :: timestamptz
  abi_status :: availability_status
  abi_slots_affected :: "int column"
  abi_created_by :: uuid

definition availability_block_row :: "env \<Rightarrow> availability_block_insert \<Rightarrow> availability_block" where
  "availability_block_row e i =
     \<lparr>ab_id = column_value (env_uuid e) (abi_id i), ab_spot_id = abi_spot_id i,
      ab_start_time = abi_start_time i, ab_end_time = abi_end_time i,
      ab_status = abi_status i,
      ab_slots_affected = column_value 1 (abi_slots_affected i),
      ab_created_by = abi_created_by i\<rparr>"

definition insert_availability_block ::
  "env \<Rightarrow> uuid \<Rightarrow> availability_block_insert \<Rightarrow> db \<Rightarrow> error + db" where
  "insert_availability_block e uid i d =
     (case rewrite_policies ForInsert False AvailabilityBlocks of
        Some rel \<Rightarrow> Inl (PolicyRecursion rel)
      | None \<Rightarrow>
        (let a = availability_block_row e i in
         if \<not> availability_block_in_range a then Inl (OutOfRange ''availability_blocks'')
         else if \<not> spot_owners_can_manage_availability_blocks d uid a
           then Inl (RlsViolation ''availability_blocks'')
         else if \<not> valid_block_time a then Inl (CheckViolation ''valid_block_time'')
         else if ab_id a \<in> set (map ab_id (availability_blocks d))
           then Inl (UniqueViolation ''availability_blocks.id'')
         else if ab_spot_id a \<notin> set (map ps_id (parking_spots d))
           then Inl (ForeignKeyViolation ''availability_blocks.spot_id'')
         else if ab_created_by a \<notin> set (map pr_id (profiles d))
           then Inl (ForeignKeyViolation ''availability_blocks.created_by'')
         else Inr (d\<lparr>availability_blocks := availability_blocks d @ [a]\<rparr>)))"

subsection \<open>Statements on \<^verbatim>\<open>bookings\<close>\<close>

record booking_insert =
  bi_id :: "uuid column"
  bi_user_id :: uuid
  bi_spot_id :: uuid
  bi_vehicle_id :: "uuid option"
  bi_start_time :: timestamptz
  bi_end_time :: timestamptz
  bi_total_cost :: int
  bi_status :: "booking_status option column"
  bi_payment_status :: "payment_status option column"
  bi_qr_code :: "string column"
  bi_pin :: "string column"
  bi_confirmed_at :: "timestamptz option"

definition booking_row :: "env \<Rightarrow> booking_insert \<Rightarrow> booking" where
  "booking_row e i =
     \<lparr>b_id = column_value (env_uuid e) (bi_id i),
      b_user_id = bi_user_id i,
      b_spot_id = bi_spot_id i,
      b_vehicle_id = bi_vehicle_id i,
      b_start_time = bi_start_time i,
      b_end_time = bi_end_time i,
      b_total_cost = bi_total_cost i,
      b_status = column_value (Some Pending) (bi_status i),
      b_payment_status = column_value (Some PaymentPending) (bi_payment_status i),
      b_qr_code = column_value (qr_code_default e) (bi_qr_code i),
      b_pin = column_value (pin_default e) (bi_pin i),
      b_confirmed_at = bi_confirmed_at i\<rparr>"

text \<open>The only INSERT policy of \<^verbatim>\<open>bookings\<close> is "Users can create bookings". No
  constraint, policy or trigger of the migration reads \<^verbatim>\<open>total_slots\<close>,
  \<^verbatim>\<open>available_slots\<close>, \<^verbatim>\<open>is_active\<close>, the other bookings' intervals or
  \<^verbatim>\<open>availability_blocks\<close> when a booking is inserted.\<close>

definition insert_booking :: "env \<Rightarrow> uuid \<Rightarrow> booking_insert \<Rightarrow> db \<Rightarrow> error + db" where
  "insert_booking e uid i d =
     (case rewrite_policies ForInsert False Bookings of
        Some rel \<Rightarrow> Inl (PolicyRecursion rel)
      | None \<Rightarrow>
        (let b = booking_row e i in
         if \<not> booking_in_range b then Inl (OutOfRange ''bookings'')
         else if \<not> users_can_create_bookings uid b then Inl (RlsViolation ''bookings'')
         else if \<not> valid_booking_time b then Inl (CheckViolation ''valid_booking_time'')
         else if \<not> valid_cost b then Inl (CheckViolation ''valid_cost'')
         else if b_id b \<in> set (map b_id (bookings d)) then Inl (UniqueViolation ''bookings.id'')
         else if b_qr_code b \<in> set (map b_qr_code (bookings d))
           then Inl (UniqueViolation ''bookings.qr_code'')
         else if b_user_id b \<notin> set (map pr_id (profiles d))
           then Inl (ForeignKeyViolation ''bookings.user_id'')
         else if b_spot_id b \<notin> set (map ps_id (parking_spots d))
           then Inl (ForeignKeyViolation ''bookings.spot_id'')
         else if (case b_vehicle_id b of None \<Rightarrow> False
                  | Some v \<Rightarrow> v \<notin> set (map v_id (vehicles d)))
           then Inl (ForeignKeyViolation ''bookings.vehicle_id'')
         else Inr (d\<lparr>bookings := bookings d @ [b]\<rparr>)))"

text \<open>\<^verbatim>\<open>UPDATE bookings SET ... WHERE id = bid\<close>. The two UPDATE policies are permissive, so
  a row is updatable when either USING holds of it, and the new row is accepted when either
  expression (neither policy has a WITH CHECK of its own) holds of the new row.\<close>

definition update_booking ::
  "uuid \<Rightarrow> uuid \<Rightarrow> (booking \<Rightarrow> booking) \<Rightarrow> db \<Rightarrow> error + nat \<times> db" where
  "update_booking uid bid f d =
     (case rewrite_policies ForUpdate True Bookings of
        Some rel \<Rightarrow> Inl (PolicyRecursion rel)
      | None \<Rightarrow>
        (case find (\<lambda>b. b_id b = bid) (bookings d) of
           None \<Rightarrow> Inr (0, d)
         | Some b \<Rightarrow>
             if \<not> (users_can_update_their_pending_bookings uid b \<or>
                   spot_owners_can_update_booking_status d uid b) then Inr (0, d)
             else
               let b' = f b; others = filter (\<lambda>x. b_id x \<noteq> bid) (bookings d) in
               if \<not> booking_in_range b' then Inl (OutOfRange ''bookings'')
               else if \<not> (users_can_update_their_pending_bookings uid b' \<or>
                     spot_owners_can_update_booking_status d uid b')
                 then Inl (RlsViolation ''bookings'')
               else if \<not> valid_booking_time b' then Inl (CheckViolation ''valid_booking_time'')
               else if \<not> valid_cost b' then Inl (CheckViolation ''valid_cost'')
               else if b_id b' \<in> set (map b_id others) then Inl (UniqueViolation ''bookings.id'')
               else if b_qr_code b' \<in> set (map b_qr_code others)
                 then Inl (UniqueViolation ''bookings.qr_code'')
               else if b_user_id b' \<noteq> b_user_id b \<and> b_user_id b' \<notin> set (map pr_id (profiles d))
                 then Inl (ForeignKeyViolation ''bookings.user_id'')
               else if b_spot_id b' \<noteq> b_spot_id b \<and>
                   b_spot_id b' \<notin> set (map ps_id (parking_spots d))
                 then Inl (ForeignKeyViolation ''bookings.spot_id'')
               else if b_vehicle_id b' \<noteq> b_vehicle_id b \<and>
                   (case b_vehicle_id b' of None \<Rightarrow> False
                    | Some v \<Rightarrow> v \<notin> set (map v_id (vehicles d)))
                 then Inl (ForeignKeyViolation ''bookings.vehicle_id'')
               else if b_id b' \<noteq> bid \<and>
                   (bid \<in> set (map sl_booking_id (payment_slips d)) \<or>
                    bid \<in> set (map rv_booking_id (reviews d)))
                 then Inl (ForeignKeyViolation ''bookings.id'')
               else Inr (1, d\<lparr>bookings := map (\<lambda>x. if b_id x = bid then b' else x) (bookings d)\<rparr>)))"

subsection \<open>Statements on \<^verbatim>\<open>payment_slips\<close> and \<^verbatim>\<open>reviews\<close>\<close>

record payment_slip_insert =
  sli_id :: "uuid column"
  sli_booking_id :: uuid
  sli_image_url :: string
  sli_status :: "payment_status option column"
  sli_verified_by :: "uuid option"
  sli_verified_at :: "timestamptz option"

definition payment_slip_row :: "env \<Rightarrow> payment_slip_insert \<Rightarrow> payment_slip" where
  "payment_slip_row e i =
     \<lparr>sl_id = column_value (env_uuid e) (sli_id i),
      sl_booking_id = sli_booking_id i,
      sl_image_url = sli_image_url i,
      sl_status = column_value (Some PaymentPending) (sli_status i),
      sl_verified_by = sli_verified_by i,
      sl_verified_at = sli_verified_at i\<rparr>"

text \<open>The policy that admits an INSERT is "Users can manage slips for their bookings"
  (FOR ALL); it does not read the booking's status.\<close>

definition insert_payment_slip :: "env \<Rightarrow> uuid \<Rightarrow> payment_slip_insert \<Rightarrow> db \<Rightarrow> error + db" where
  "insert_payment_slip e uid i d =
     (case rewrite_policies ForInsert False PaymentSlips of
        Some rel \<Rightarrow> Inl (PolicyRecursion rel)
      | None \<Rightarrow>
        (let sl = payment_slip_row e i in
         if \<not> payment_slip_in_range sl then Inl (OutOfRange ''payment_slips'')
         else if \<not> users_can_manage_slips_for_their_bookings d uid sl
           then Inl (RlsViolation ''payment_slips'')
         else if sl_id sl \<in> set (map sl_id (payment_slips d))
           then Inl (UniqueViolation ''payment_slips.id'')
         else if sl_booking_id sl \<in> set (map sl_booking_id (payment_slips d))
           then Inl (UniqueViolation ''payment_slips.booking_id'')
         else if sl_booking_id sl \<notin> set (map b_id (bookings d))
           then Inl (ForeignKeyViolation ''payment_slips.booking_id'')
         else if (case sl_verified_by sl of None \<Rightarrow> False
                  | Some v \<Rightarrow> v \<notin> set (map pr_id (profiles d)))
           then Inl (ForeignKeyViolation ''payment_slips.verified_by'')
         else Inr (d\<lparr>payment_slips := payment_slips d @ [sl]\<rparr>)))"

text \<open>\<^verbatim>\<open>UPDATE payment_slips SET ... WHERE id = slid\<close>, under "Users can manage slips for
  their bookings" (FOR ALL) and "Spot owners can verify payment slips" (FOR UPDATE); neither
  has a WITH CHECK of its own.\<close>

definition update_payment_slip ::
  "uuid \<Rightarrow> uuid \<Rightarrow> (payment_slip \<Rightarrow> payment_slip) \<Rightarrow> db \<Rightarrow> error + nat \<times> db" where
  "update_payment_slip uid slid f d =
     (case rewrite_policies ForUpdate True PaymentSlips of
        Some rel \<Rightarrow> Inl (PolicyRecursion rel)
      | None \<Rightarrow>
        (case find (\<lambda>sl. sl_id sl = slid) (payment_slips d) of
           None \<Rightarrow> Inr (0, d)
         | Some sl \<Rightarrow>
             if \<not> (users_can_manage_slips_for_their_bookings d uid sl \<or>
                   spot_owners_can_verify_payment_slips d uid sl) then Inr (0, d)
             else
               let sl' = f sl; others = filter (\<lambda>x. sl_id x \<noteq> slid) (payment_slips d) in
               if \<not> payment_slip_in_range sl' then Inl (OutOfRange ''payment_slips'')
               else if \<not> (users_can_manage_slips_for_their_bookings d uid sl' \<or>
                     spot_owners_can_verify_payment_slips d uid sl')
                 then Inl (RlsViolation ''payment_slips'')
               else if sl_id sl' \<in> set (map sl_id others)
                 then Inl (UniqueViolation ''payment_slips.id'')
               else if sl_booking_id sl' \<in> set (map sl_booking_id others)
                 then Inl (UniqueViolation ''payment_slips.booking_id'')
               else if sl_booking_id sl' \<noteq> sl_booking_id sl \<and>
                   sl_booking_id sl' \<notin> set (map b_id (bookings d))
                 then Inl (ForeignKeyViolation ''payment_slips.booking_id'')
               else if sl_verified_by sl' \<noteq> sl_verified_by sl \<and>
                   (case sl_verified_by sl' of None \<Rightarrow> False
                    | Some v \<Rightarrow> v \<notin> set (map pr_id (profiles d)))
                 then Inl (ForeignKeyViolation ''payment_slips.verified_by'')
               else Inr (1, d\<lparr>payment_slips :=
                      map (\<lambda>x. if sl_id x = slid then sl' else x) (payment_slips d)\<rparr>)))"

text \<open>\<^verbatim>\<open>DELETE FROM payment_slips WHERE id = slid\<close>; the FOR ALL policy is the only one
  that covers DELETE.\<close>

definition delete_payment_slip :: "uuid \<Rightarrow> uuid \<Rightarrow> db \<Rightarrow> error + nat \<times> db" where
  "delete_payment_slip uid slid d =
     (case rewrite_policies ForDelete True PaymentSlips of
        Some rel \<Rightarrow> Inl (PolicyRecursion rel)
      | None \<Rightarrow>
        (case find (\<lambda>sl. sl_id sl = slid) (payment_slips d) of
           None \<Rightarrow> Inr (0, d)
         | Some sl \<Rightarrow>
             if \<not> users_can_manage_slips_for_their_bookings d uid sl then Inr (0, d)
             else Inr (1, d\<lparr>payment_slips := filter (\<lambda>x. sl_id x \<noteq> slid) (payment_slips d)\<rparr>)))"

record review_insert =
  rvi_id :: "uuid column"
  rvi_booking_id :: uuid
  rvi_user_id :: uuid
  rvi_spot_id :: uuid
  rvi_rating :: int

definition review_row :: "env \<Rightarrow> review_insert \<Rightarrow> review" where
  "review_row e i =
     \<lparr>rv_id = column_value (env_uuid e) (rvi_id i),
      rv_booking_id = rvi_booking_id i,
      rv_user_id = rvi_user_id i,
      rv_spot_id = rvi_spot_id i,
      rv_rating = rvi_rating i\<rparr>"

text \<open>The trigger function \<^verbatim>\<open>update_spot_rating()\<close>, fired after each inserted review:
  \<^verbatim>\<open>UPDATE parking_spots SET updated_at = now() WHERE id = NEW.spot_id\<close>. It is not a
  SECURITY DEFINER function, so its UPDATE runs under the policies of the user who inserts
  the review, and an error in it aborts the INSERT.\<close>

definition update_spot_rating :: "env \<Rightarrow> uuid \<Rightarrow> review \<Rightarrow> db \<Rightarrow> error + db" where
  "update_spot_rating e uid r d =
     (case update_parking_spot uid (rv_spot_id r) (\<lambda>s. s\<lparr>ps_updated_at := Some (env_now e)\<rparr>) d of
        Inl err \<Rightarrow> Inl err
      | Inr (n, d') \<Rightarrow> Inr d')"

definition insert_review :: "env \<Rightarrow> uuid \<Rightarrow> review_insert \<Rightarrow> db \<Rightarrow> error + db" where
  "insert_review e uid i d =
     (case rewrite_policies ForInsert False Reviews of
        Some rel \<Rightarrow> Inl (PolicyRecursion rel)
      | None \<Rightarrow>
        (let r = review_row e i in
         if \<not> review_in_range r then Inl (OutOfRange ''reviews'')
         else if \<not> users_can_create_reviews_for_their_completed_bookings d uid r
           then Inl (RlsViolation ''reviews'')
         else if \<not> rating_check r then Inl (CheckViolation ''reviews.rating'')
         else if rv_id r \<in> set (map rv_id (reviews d)) then Inl (UniqueViolation ''reviews.id'')
         else if rv_booking_id r \<in> set (map rv_booking_id (reviews d))
           then Inl (UniqueViolation ''reviews.booking_id'')
         else if rv_booking_id r \<notin> set (map b_id (bookings d))
           then Inl (ForeignKeyViolation ''reviews.booking_id'')
         else if rv_user_id r \<notin> set (map pr_id (profiles d))
           then Inl (ForeignKeyViolation ''reviews.user_id'')
         else if rv_spot_id r \<notin> set (map ps_id (parking_spots d))
           then Inl (ForeignKeyViolation ''reviews.spot_id'')
         else update_spot_rating e uid r (d\<lparr>reviews := reviews d @ [r]\<rparr>)))"

subsection \<open>The trigger on \<^verbatim>\<open>auth.users\<close>\<close>

text \<open>\<^verbatim>\<open>split_part(s, '@', 1)\<close>: the text before the first \<open>@\<close>, all of \<open>s\<close> when it has
  none.\<close>

definition split_part_1 :: "string \<Rightarrow> char \<Rightarrow> string" where
  "split_part_1 s c = takeWhile (\<lambda>x. x \<noteq> c) s"

text \<open>The cast \<^verbatim>\<open>::user_role\<close> of a text.\<close>

definition user_role_of_text :: "string \<Rightarrow> user_role option" where
  "user_role_of_text t =
     (if t = ''user'' then Some User else if t = ''owner'' then Some Owner
      else if t = ''admin'' then Some Admin else None)"

text \<open>\<^verbatim>\<open>handle_new_user()\<close>, fired by the trigger \<^verbatim>\<open>on_auth_user_created\<close> AFTER INSERT ON
  \<^verbatim>\<open>auth.users\<close> FOR EACH ROW. It is SECURITY DEFINER: its INSERT INTO \<^verbatim>\<open>profiles\<close> is
  not subject to the policies. \<open>m ->> k\<close> is the lookup in the metadata, NULL when the
  key is missing; a NULL \<^verbatim>\<open>NEW.email\<close> makes \<^verbatim>\<open>split_part\<close> NULL as well.\<close>

definition handle_new_user :: "auth_user \<Rightarrow> db \<Rightarrow> error + db" where
  "handle_new_user new d =
     (let meta = map_of (au_raw_user_meta_data new);
          name = (case meta ''name'' of Some n \<Rightarrow> Some n
                  | None \<Rightarrow> map_option (\<lambda>m. split_part_1 m CHR ''@'') (au_email new));
          role_text = (case meta ''role'' of Some r \<Rightarrow> r | None \<Rightarrow> ''user'')
      in case user_role_of_text role_text of
           None \<Rightarrow> Inl (InvalidEnumValue role_text)
         | Some role \<Rightarrow>
             (case au_email new of
                None \<Rightarrow> Inl (NotNullViolation ''profiles.email'')
              | Some email \<Rightarrow>
                  (case name of
                     None \<Rightarrow> Inl (NotNullViolation ''profiles.name'')
                   | Some nm \<Rightarrow>
                       if au_id new \<in> set (map pr_id (profiles d))
                         then Inl (UniqueViolation ''profiles.id'')
                       else if email \<in> set (map pr_email (profiles d))
                         then Inl (UniqueViolation ''profiles.email'')
                       else Inr (d\<lparr>profiles := profiles d @
                              [\<lparr>pr_id = au_id new, pr_email = email, pr_name = nm,
                                pr_role = Some role\<rparr>]\<rparr>))))"

text \<open>An insert into \<^verbatim>\<open>auth.users\<close> by the identity service (its own key is the only
  constraint of that table the model keeps), followed by the trigger; an error of the
  trigger aborts the insert.\<close>

definition insert_auth_user :: "auth_user \<Rightarrow> db \<Rightarrow> error + db" where
  "insert_auth_user new d =
     (if au_id new \<in> set (map au_id (auth_users d)) then Inl (UniqueViolation ''auth.users.id'')
      else handle_new_user new (d\<lparr>auth_users := auth_users d @ [new]\<rparr>))"

text \<open>\<^verbatim>\<open>UPDATE profiles SET ... WHERE id = pid\<close>, the statement behind the client's
  \<^verbatim>\<open>updateProfile\<close>. "Users can update own profile" holds of the old and of the new row,
  so the \<open>id\<close> stays the caller's and no key that references it is touched.\<close>

definition update_profile ::
  "uuid \<Rightarrow> uuid \<Rightarrow> (profile \<Rightarrow> profile) \<Rightarrow> db \<Rightarrow> error + nat \<times> db" where
  "update_profile uid pid f d =
     (case rewrite_policies ForUpdate True Profiles of
        Some rel \<Rightarrow> Inl (PolicyRecursion rel)
      | None \<Rightarrow>
        (case find (\<lambda>p. pr_id p = pid) (profiles d) of
           None \<Rightarrow> Inr (0, d)
         | Some p \<Rightarrow>
             if \<not> users_can_update_own_profile uid p then Inr (0, d)
             else
               let p' = f p; others = filter (\<lambda>x. pr_id x \<noteq> pid) (profiles d) in
               if \<not> users_can_update_own_profile uid p' then Inl (RlsViolation ''profiles'')
               else if pr_id p' \<in> set (map pr_id others) then Inl (UniqueViolation ''profiles.id'')
               else if pr_email p' \<in> set (map pr_email others)
                 then Inl (UniqueViolation ''profiles.email'')
               else Inr (1, d\<lparr>profiles := map (\<lambda>x. if pr_id x = pid then p' else x) (profiles d)\<rparr>)))"

subsection \<open>Runs of statements\<close>

datatype command =
    InsertAuthUser auth_user
  | InsertParkingSpot parking_spot_insert
  | UpdateParkingSpot uuid "parking_spot \<Rightarrow> parking_spot"
  | InsertVehicle vehicle_insert
  | InsertAvailabilityBlock availability_block_insert
  | InsertBooking booking_insert
  | UpdateBooking uuid "booking \<Rightarrow> booking"
  | InsertPaymentSlip payment_slip_insert
  | InsertReview review_insert
  | UpdatePaymentSlip uuid "payment_slip \<Rightarrow> payment_slip"
  | DeletePaymentSlip uuid
  | DeleteParkingSpot uuid
  | UpdateProfile uuid "profile \<Rightarrow> profile"

fun exec :: "env \<Rightarrow> uuid \<Rightarrow> command \<Rightarrow> db \<Rightarrow> error + db" where
  "exec e uid (InsertAuthUser u) d = insert_auth_user u d"
| "exec e uid (InsertParkingSpot i) d = insert_parking_spot e uid i d"
| "exec e uid (UpdateParkingSpot sid f) d = map_sum id snd (update_parking_spot uid sid f d)"
| "exec e uid (InsertVehicle i) d = insert_vehicle e uid i d"
| "exec e uid (InsertAvailabilityBlock i) d = insert_availability_block e uid i d"
| "exec e uid (InsertBooking i) d = insert_booking e uid i d"
| "exec e uid (UpdateBooking bid f) d = map_sum id snd (update_booking uid bid f d)"
| "exec e uid (InsertPaymentSlip i) d = insert_payment_slip e uid i d"
| "exec e uid (InsertReview i) d = insert_review e uid i d"
| "exec e uid (UpdatePaymentSlip slid f) d = map_sum id snd (update_payment_slip uid slid f d)"
| "exec e uid (DeletePaymentSlip slid) d = map_sum id snd (delete_payment_slip uid slid d)"
| "exec e uid (DeleteParkingSpot sid) d = map_sum id snd (delete_parking_spot uid sid d)"
| "exec e uid (UpdateProfile pid f) d = map_sum id snd (update_profile uid pid f d)"

text \<open>The databases that statements can produce from the migrated state. A statement that
  fails leaves the database as it was. The commands are the statements of the booking
  workflow; UPDATE and DELETE on \<^verbatim>\<open>vehicles\<close> and \<^verbatim>\<open>availability_blocks\<close>,
  the table \<^verbatim>\<open>payment_methods\<close> and the removal of users are not among them.\<close>

inductive reachable :: "db \<Rightarrow> bool" where
  init: "reachable (initial_db us)"
| step: "reachable d \<Longrightarrow> exec e uid c d = Inr d' \<Longrightarrow> reachable d'"

section \<open>Booking requests run one after another\<close>

text \<open>A request for a booking is one INSERT into \<^verbatim>\<open>bookings\<close>, a transaction of its own:
  the migration defines no function that checks and reserves, and the client of
  \<^verbatim>\<open>src/lib/supabase.ts\<close> calls none. \<open>insert_bookings\<close> runs a list of such requests in
  the order of the list; a request that fails leaves the database as it was. The result
  tells, request by request, whether it succeeded, and gives the final database.\<close>

type_synonym booking_call = "env \<times> uuid \<times> booking_insert"

fun insert_bookings :: "booking_call list \<Rightarrow> db \<Rightarrow> bool list \<times> db" where
  "insert_bookings [] d = ([], d)"
| "insert_bookings ((e, uid, i) # cs) d =
     (case insert_booking e uid i d of
        Inl err \<Rightarrow> (case insert_bookings cs d of (rs, d') \<Rightarrow> (False # rs, d'))
      | Inr d1 \<Rightarrow> (case insert_bookings cs d1 of (rs, d') \<Rightarrow> (True # rs, d')))"

text \<open>The row a request asks for, and the checks on it that read no other booking: the
  ranges of its columns, the policy "Users can create bookings", the two CHECK
  constraints and the three foreign keys.\<close>

definition call_row :: "booking_call \<Rightarrow> booking" where
  "call_row c = (case c of (e, uid, i) \<Rightarrow> booking_row e i)"

definition call_passes_row_checks :: "db \<Rightarrow> booking_call \<Rightarrow> bool" where
  "call_passes_row_checks d c =
     (case c of (e, uid, i) \<Rightarrow>
        booking_in_range (booking_row e i) \<and>
        users_can_create_bookings uid (booking_row e i) \<and>
        valid_booking_time (booking_row e i) \<and> valid_cost (booking_row e i) \<and>
        b_user_id (booking_row e i) \<in> set (map pr_id (profiles d)) \<and>
        b_spot_id (booking_row e i) \<in> set (map ps_id (parking_spots d)) \<and>
        (case b_vehicle_id (booking_row e i) of
           None \<Rightarrow> True
         | Some v \<Rightarrow> v \<in> set (map v_id (vehicles d))))"

section \<open>Notions of the specification\<close>

text \<open>The capacity rule in the words of the specification (section 4.1), for comparison
  with \<open>insert_booking\<close>. A booking row has no unit count: each row holds one unit.\<close>

definition spec_overlaps :: "timestamptz \<Rightarrow> timestamptz \<Rightarrow> timestamptz \<Rightarrow> timestamptz \<Rightarrow> bool" where
  "spec_overlaps existing_start existing_end i_start i_end =
     (existing_start < i_end \<and> existing_end > i_start)"

definition spec_concurrent_demand :: "db \<Rightarrow> uuid \<Rightarrow> timestamptz \<Rightarrow> timestamptz \<Rightarrow> int" where
  "spec_concurrent_demand d spot i_start i_end =
     int (length (filter
       (\<lambda>b. b_spot_id b = spot \<and>
            (b_status b = Some Pending \<or> b_status b = Some Confirmed \<or> b_status b = Some Active) \<and>
            spec_overlaps (b_start_time b) (b_end_time b) i_start i_end) (bookings d))) +
     sum_list (map ab_slots_affected (filter
       (\<lambda>a. ab_spot_id a = spot \<and> spec_overlaps (ab_start_time a) (ab_end_time a) i_start i_end)
       (availability_blocks d)))"

definition spec_capacity_left :: "db \<Rightarrow> uuid \<Rightarrow> timestamptz \<Rightarrow> timestamptz \<Rightarrow> int option" where
  "spec_capacity_left d spot i_start i_end =
     map_option (\<lambda>s. ps_total_slots s - spec_concurrent_demand d spot i_start i_end)
       (find (\<lambda>s. ps_id s = spot) (parking_spots d))"

text \<open>The number a string of decimal digits denotes; it reads the pin back.\<close>

definition digit_value :: "char \<Rightarrow> nat" where
  "digit_value c = of_char c - 48"

definition decimal_value :: "string \<Rightarrow> nat" where
  "decimal_value s = foldl (\<lambda>a c. 10 * a + digit_value c) 0 s"

section \<open>A worked run\<close>

text \<open>Two sign-ups, a parking spot of one slot and bookings of it; the states are written
  out and shown reachable below.\<close>

definition ex_env :: env where
  "ex_env = \<lparr>env_now = 1000, env_uuid = 900, env_bytes = (\<lambda>n. of_nat (7 * n + 160)),
     env_random = \<lparr>ud_m = 1401, ud_k = 15\<rparr>\<rparr>"

definition alice :: auth_user where
  "alice = \<lparr>au_id = 101, au_email = Some ''alice@example.org'', au_raw_user_meta_data = []\<rparr>"

definition bob :: auth_user where
  "bob = \<lparr>au_id = 102, au_email = Some ''bob@example.org'',
     au_raw_user_meta_data = [(''name'', ''Bob''), (''role'', ''owner'')]\<rparr>"

definition ex_spot :: parking_spot_insert where
  "ex_spot = \<lparr>psi_id = Given 201, psi_owner_id = 102, psi_total_slots = DEFAULT,
     psi_available_slots = DEFAULT, psi_price = 5000, psi_images = Given [''a.png''],
     psi_is_active = DEFAULT, psi_updated_at = DEFAULT\<rparr>"

definition ex_booking :: booking_insert where
  "ex_booking = \<lparr>bi_id = Given 301, bi_user_id = 101, bi_spot_id = 201, bi_vehicle_id = None,
     bi_start_time = 600, bi_end_time = 660, bi_total_cost = 5000, bi_status = DEFAULT,
     bi_payment_status = DEFAULT, bi_qr_code = DEFAULT, bi_pin = DEFAULT,
     bi_confirmed_at = None\<rparr>"

definition ex_profiles :: "profile list" where
  "ex_profiles =
     [\<lparr>pr_id = 101, pr_email = ''alice@example.org'', pr_name = ''alice'', pr_role = Some User\<rparr>,
      \<lparr>pr_id = 102, pr_email = ''bob@example.org'', pr_name = ''Bob'', pr_role = Some Owner\<rparr>]"

definition ex_spot_row :: parking_spot where
  "ex_spot_row = \<lparr>ps_id = 201, ps_owner_id = 102, ps_total_slots = 1, ps_available_slots = 1,
     ps_price = 5000, ps_images = [''a.png''], ps_is_active = Some True,
     ps_updated_at = Some 1000\<rparr>"

definition ex_booking_row :: booking where
  "ex_booking_row = \<lparr>b_id = 301, b_user_id = 101, b_spot_id = 201, b_vehicle_id = None,
     b_start_time = 600, b_end_time = 660, b_total_cost = 5000, b_status = Some Pending,
     b_payment_status = Some PaymentPending,
     b_qr_code = ''a0a7aeb5bcc3cad1d8dfe6edf4fb0209'', b_pin = ''0427'',
     b_confirmed_at = None\<rparr>"

definition ex_db1 :: db where
  "ex_db1 = \<lparr>auth_users = [alice, bob], profiles = ex_profiles, parking_spots = [],
     vehicles = [], bookings = [], payment_slips = [], reviews = [],
     availability_blocks = []\<rparr>"

definition ex_db2 :: db where
  "ex_db2 = ex_db1\<lparr>parking_spots := [ex_spot_row]\<rparr>"

definition ex_db3 :: db where
  "ex_db3 = ex_db2\<lparr>bookings := [ex_booking_row]\<rparr>"


definition ex_db4 :: db where
  "ex_db4 = ex_db2\<lparr>bookings := [ex_booking_row\<lparr>b_status := Some Completed\<rparr>]\<rparr>"


text \<open>A second booking of the same spot whose interval overlaps the first.\<close>

definition ex_env2 :: env where
  "ex_env2 = \<lparr>env_now = 1010, env_uuid = 302, env_bytes = (\<lambda>n. of_nat (11 * n + 5)),
     env_random = \<lparr>ud_m = 58983, ud_k = 16\<rparr>\<rparr>"

definition ex_booking2 :: booking_insert where
  "ex_booking2 = \<lparr>bi_id = DEFAULT, bi_user_id = 101, bi_spot_id = 201, bi_vehicle_id = None,
     bi_start_time = 630, bi_end_time = 690, bi_total_cost = 5000, bi_status = DEFAULT,
     bi_payment_status = DEFAULT, bi_qr_code = DEFAULT, bi_pin = DEFAULT,
     bi_confirmed_at = None\<rparr>"

definition ex_booking_row2 :: booking where
  "ex_booking_row2 = \<lparr>b_id = 302, b_user_id = 101, b_spot_id = 201, b_vehicle_id = None,
     b_start_time = 630, b_end_time = 690, b_total_cost = 5000, b_status = Some Pending,
     b_payment_status = Some PaymentPending,
     b_qr_code = ''05101b26313c47525d68737e89949faa'', b_pin = ''9000'',
     b_confirmed_at = None\<rparr>"

definition ex_db3_oversold :: db where
  "ex_db3_oversold = ex_db3\<lparr>bookings := [ex_booking_row, ex_booking_row2]\<rparr>"




text \<open>A third booking, with a code and a pin that the client supplies.\<close>

definition ex_booking_own :: booking_insert where
  "ex_booking_own = \<lparr>bi_id = Given 303, bi_user_id = 101, bi_spot_id = 201,
     bi_vehicle_id = None, bi_start_time = 700, bi_end_time = 760, bi_total_cost = 5000,
     bi_status = DEFAULT, bi_payment_status = DEFAULT, bi_qr_code = Given ''x'',
     bi_pin = Given ''abcde'', bi_confirmed_at = None\<rparr>"

definition ex_booking_row_own :: booking where
  "ex_booking_row_own = \<lparr>b_id = 303, b_user_id = 101, b_spot_id = 201, b_vehicle_id = None,
     b_start_time = 700, b_end_time = 760, b_total_cost = 5000, b_status = Some Pending,
     b_payment_status = Some PaymentPending, b_qr_code = ''x'', b_pin = ''abcde'',
     b_confirmed_at = None\<rparr>"

definition ex_db3_own :: db where
  "ex_db3_own = ex_db3\<lparr>bookings := [ex_booking_row, ex_booking_row_own]\<rparr>"




text \<open>A value of \<^verbatim>\<open>random()\<close> whose product with 10000 lies below 9985 and is rounded up
  to it.\<close>

definition ex_random_rounded_up :: unit_double where
  "ex_random_rounded_up = \<lparr>ud_m = 281052764245590, ud_k = 48\<rparr>"

section \<open>The rewrite of each statement\<close>

text \<open>The INSERTs into \<^verbatim>\<open>parking_spots\<close>, \<^verbatim>\<open>vehicles\<close> and \<^verbatim>\<open>bookings\<close> are admitted by
  policies without a sub-select. Every other statement reaches, through its policies,
  the read policies of \<^verbatim>\<open>profiles\<close>, of which "Admins can read all profiles" selects
  from \<^verbatim>\<open>profiles\<close> itself.\<close>

lemma rewrite_insert_parking_spots: "rewrite_policies ForInsert False ParkingSpots = None"
  by code_simp

lemma rewrite_insert_vehicles: "rewrite_policies ForInsert False Vehicles = None"
  by code_simp

lemma rewrite_insert_bookings: "rewrite_policies ForInsert False Bookings = None"
  by code_simp

lemma rewrite_update_parking_spots: "rewrite_policies ForUpdate True ParkingSpots = Some Profiles"
  by code_simp

lemma rewrite_delete_parking_spots: "rewrite_policies ForDelete True ParkingSpots = Some Profiles"
  by code_simp

lemma rewrite_insert_availability_blocks:
  "rewrite_policies ForInsert False AvailabilityBlocks = Some Profiles"
  by code_simp

lemma rewrite_update_bookings: "rewrite_policies ForUpdate True Bookings = Some Profiles"
  by code_simp

lemma rewrite_insert_payment_slips: "rewrite_policies ForInsert False PaymentSlips = Some Profiles"
  by code_simp

lemma rewrite_update_payment_slips: "rewrite_policies ForUpdate True PaymentSlips = Some Profiles"
  by code_simp

lemma rewrite_delete_payment_slips: "rewrite_policies ForDelete True PaymentSlips = Some Profiles"
  by code_simp

lemma rewrite_insert_reviews: "rewrite_policies ForInsert False Reviews = Some Profiles"
  by code_simp

lemma rewrite_update_profiles: "rewrite_policies ForUpdate True Profiles = Some Profiles"
  by code_simp

lemma update_parking_spot_recursion:
  "update_parking_spot uid sid f d = Inl (PolicyRecursion Profiles)"
  by (simp add: update_parking_spot_def rewrite_update_parking_spots)

lemma delete_parking_spot_recursion:
  "delete_parking_spot uid sid d = Inl (PolicyRecursion Profiles)"
  by (simp add: delete_parking_spot_def rewrite_delete_parking_spots)

lemma insert_availability_block_recursion:
  "insert_availability_block e uid i d = Inl (PolicyRecursion Profiles)"
  by (simp add: insert_availability_block_def rewrite_insert_availability_blocks)

lemma update_booking_recursion:
  "update_booking uid bid f d = Inl (PolicyRecursion Profiles)"
  by (simp add: update_booking_def rewrite_update_bookings)

lemma insert_payment_slip_recursion:
  "insert_payment_slip e uid i d = Inl (PolicyRecursion Profiles)"
  by (simp add: insert_payment_slip_def rewrite_insert_payment_slips)

lemma update_payment_slip_recursion:
  "update_payment_slip uid slid f d = Inl (PolicyRecursion Profiles)"
  by (simp add: update_payment_slip_def rewrite_update_payment_slips)

lemma delete_payment_slip_recursion:
  "delete_payment_slip uid slid d = Inl (PolicyRecursion Profiles)"
  by (simp add: delete_payment_slip_def rewrite_delete_payment_slips)

lemma insert_review_recursion:
  "insert_review e uid i d = Inl (PolicyRecursion Profiles)"
  by (simp add: insert_review_def rewrite_insert_reviews)

lemma update_profile_recursion:
  "update_profile uid pid f d = Inl (PolicyRecursion Profiles)"
  by (simp add: update_profile_def rewrite_update_profiles)

section \<open>What a successful statement did\<close>

lemma insert_parking_spot_Inr:
  "insert_parking_spot e uid i d = Inr d' \<longleftrightarrow>
     (parking_spot_in_range (parking_spot_row e i) \<and>
      owners_can_manage_their_spots uid (parking_spot_row e i) \<and>
      valid_images (parking_spot_row e i) \<and> valid_price (parking_spot_row e i) \<and>
      valid_slots (parking_spot_row e i) \<and>
      ps_id (parking_spot_row e i) \<notin> set (map ps_id (parking_spots d)) \<and>
      ps_owner_id (parking_spot_row e i) \<in> set (map pr_id (profiles d)) \<and>
      d' = d\<lparr>parking_spots := parking_spots d @ [parking_spot_row e i]\<rparr>)"
  unfolding insert_parking_spot_def rewrite_insert_parking_spots Let_def by auto

lemma insert_booking_Inr:
  "insert_booking e uid i d = Inr d' \<longleftrightarrow>
     (booking_in_range (booking_row e i) \<and>
      users_can_create_bookings uid (booking_row e i) \<and>
      valid_booking_time (booking_row e i) \<and> valid_cost (booking_row e i) \<and>
      b_id (booking_row e i) \<notin> set (map b_id (bookings d)) \<and>
      b_qr_code (booking_row e i) \<notin> set (map b_qr_code (bookings d)) \<and>
      b_user_id (booking_row e i) \<in> set (map pr_id (profiles d)) \<and>
      b_spot_id (booking_row e i) \<in> set (map ps_id (parking_spots d)) \<and>
      (\<forall>v. b_vehicle_id (booking_row e i) = Some v \<longrightarrow> v \<in> set (map v_id (vehicles d))) \<and>
      d' = d\<lparr>bookings := bookings d @ [booking_row e i]\<rparr>)"
  unfolding insert_booking_def rewrite_insert_bookings Let_def by (auto split: option.splits)

lemma insert_vehicle_Inr:
  assumes "insert_vehicle e uid i d = Inr d'"
  shows "d' = d\<lparr>vehicles := vehicles d @ [vehicle_row e i]\<rparr>"
  using assms unfolding insert_vehicle_def rewrite_insert_vehicles Let_def
  by (auto split: if_splits)

lemma handle_new_user_Inr:
  assumes "handle_new_user u d = Inr d'"
  shows "d' = d\<lparr>profiles := profiles d'\<rparr> \<and>
     (\<exists>p. profiles d' = profiles d @ [p] \<and> pr_id p = au_id u \<and> au_email u = Some (pr_email p))"
  using assms unfolding handle_new_user_def Let_def
  by (auto split: option.splits if_splits)

lemma insert_auth_user_Inr:
  assumes "insert_auth_user u d = Inr d'"
  shows "d' = d\<lparr>auth_users := auth_users d @ [u], profiles := profiles d'\<rparr> \<and>
     au_id u \<notin> set (map au_id (auth_users d)) \<and>
     (\<exists>p. profiles d' = profiles d @ [p] \<and> pr_id p = au_id u \<and> au_email u = Some (pr_email p))"
proof -
  from assms have fresh: "au_id u \<notin> set (map au_id (auth_users d))"
    and h: "handle_new_user u (d\<lparr>auth_users := auth_users d @ [u]\<rparr>) = Inr d'"
    unfolding insert_auth_user_def by (auto split: if_splits)
  from handle_new_user_Inr [OF h] fresh show ?thesis by auto
qed

lemma handle_new_user_profile:
  assumes "handle_new_user u d = Inr d'"
  shows "\<exists>email role.
     au_email u = Some email \<and>
     user_role_of_text (case map_of (au_raw_user_meta_data u) ''role'' of
                          Some r \<Rightarrow> r | None \<Rightarrow> ''user'') = Some role \<and>
     profiles d' = profiles d @
       [\<lparr>pr_id = au_id u, pr_email = email,
         pr_name = (case map_of (au_raw_user_meta_data u) ''name'' of
                      Some n \<Rightarrow> n | None \<Rightarrow> split_part_1 email CHR ''@''),
         pr_role = Some role\<rparr>]"
  using assms unfolding handle_new_user_def Let_def
  by (auto split: option.splits if_splits)

text \<open>The statements that can succeed.\<close>

lemma exec_Inr_cases:
  assumes "exec e uid c d = Inr d'"
  obtains (auth_user) u where "c = InsertAuthUser u" and "insert_auth_user u d = Inr d'"
  | (parking_spot) i where "c = InsertParkingSpot i" and "insert_parking_spot e uid i d = Inr d'"
  | (vehicle) i where "c = InsertVehicle i" and "insert_vehicle e uid i d = Inr d'"
  | (booking) i where "c = InsertBooking i" and "insert_booking e uid i d = Inr d'"
  using assms
  by (cases c)
    (simp_all add: update_parking_spot_recursion delete_parking_spot_recursion
      insert_availability_block_recursion update_booking_recursion
      insert_payment_slip_recursion update_payment_slip_recursion
      delete_payment_slip_recursion insert_review_recursion update_profile_recursion)

lemma insert_auth_user_frame:
  assumes "insert_auth_user u d = Inr d'"
  shows "parking_spots d' = parking_spots d" and "vehicles d' = vehicles d"
    and "bookings d' = bookings d" and "payment_slips d' = payment_slips d"
    and "reviews d' = reviews d" and "availability_blocks d' = availability_blocks d"
    and "auth_users d' = auth_users d @ [u]"
proof -
  from insert_auth_user_Inr [OF assms]
  have eq: "d' = d\<lparr>auth_users := auth_users d @ [u], profiles := profiles d'\<rparr>" by simp
  have sel: "auth_users (d\<lparr>auth_users := auth_users d @ [u], profiles := ps\<rparr>) = auth_users d @ [u] \<and>
      parking_spots (d\<lparr>auth_users := auth_users d @ [u], profiles := ps\<rparr>) = parking_spots d \<and>
      vehicles (d\<lparr>auth_users := auth_users d @ [u], profiles := ps\<rparr>) = vehicles d \<and>
      bookings (d\<lparr>auth_users := auth_users d @ [u], profiles := ps\<rparr>) = bookings d \<and>
      payment_slips (d\<lparr>auth_users := auth_users d @ [u], profiles := ps\<rparr>) = payment_slips d \<and>
      reviews (d\<lparr>auth_users := auth_users d @ [u], profiles := ps\<rparr>) = reviews d \<and>
      availability_blocks (d\<lparr>auth_users := auth_users d @ [u], profiles := ps\<rparr>) =
        availability_blocks d" for ps
    by simp
  from sel [of "profiles d'"] eq
  show "parking_spots d' = parking_spots d" "vehicles d' = vehicles d"
    "bookings d' = bookings d" "payment_slips d' = payment_slips d"
    "reviews d' = reviews d" "availability_blocks d' = availability_blocks d"
    "auth_users d' = auth_users d @ [u]"
    by metis+
qed

lemma exec_profiles_frame:
  assumes "exec e uid c d = Inr d'"
  shows "length (profiles d') = length (profiles d) \<or> (\<exists>u. c = InsertAuthUser u)"
  using assms
proof (cases rule: exec_Inr_cases)
  case (auth_user u)
  then show ?thesis by simp
next
  case (parking_spot i)
  then show ?thesis by (simp add: insert_parking_spot_Inr)
next
  case (vehicle i)
  from insert_vehicle_Inr [OF vehicle(2)] show ?thesis by simp
next
  case (booking i)
  then show ?thesis by (simp add: insert_booking_Inr)
qed

text \<open>Invariants of the reachable databases.\<close>

lemma exec_booking_keys:
  assumes inv: "distinct (map b_id (bookings d)) \<and> distinct (map b_qr_code (bookings d))"
    and ex: "exec e uid c d = Inr d'"
  shows "distinct (map b_id (bookings d')) \<and> distinct (map b_qr_code (bookings d'))"
  using ex
proof (cases rule: exec_Inr_cases)
  case (auth_user u)
  with inv insert_auth_user_frame(3) [OF auth_user(2)] show ?thesis by simp
next
  case (parking_spot i)
  with inv show ?thesis by (simp add: insert_parking_spot_Inr)
next
  case (vehicle i)
  from insert_vehicle_Inr [OF vehicle(2)] inv show ?thesis by simp
next
  case (booking i)
  with inv show ?thesis by (auto simp: insert_booking_Inr)
qed

lemma reachable_booking_keys:
  "reachable d \<Longrightarrow> distinct (map b_id (bookings d)) \<and> distinct (map b_qr_code (bookings d))"
proof (induction rule: reachable.induct)
  case (init us)
  show ?case by (simp add: initial_db_def)
next
  case (step d e uid c d')
  from exec_booking_keys [OF step.IH step.hyps(2)] show ?case .
qed

lemma exec_bookings_valid:
  assumes inv: "\<forall>b\<in>set (bookings d). valid_booking_time b \<and> valid_cost b"
    and ex: "exec e uid c d = Inr d'"
  shows "\<forall>b\<in>set (bookings d'). valid_booking_time b \<and> valid_cost b"
  using ex
proof (cases rule: exec_Inr_cases)
  case (auth_user u)
  with inv insert_auth_user_frame(3) [OF auth_user(2)] show ?thesis by simp
next
  case (parking_spot i)
  with inv show ?thesis by (simp add: insert_parking_spot_Inr)
next
  case (vehicle i)
  from insert_vehicle_Inr [OF vehicle(2)] inv show ?thesis by simp
next
  case (booking i)
  with inv show ?thesis by (auto simp: insert_booking_Inr)
qed

lemma reachable_bookings_valid:
  "reachable d \<Longrightarrow> \<forall>b\<in>set (bookings d). valid_booking_time b \<and> valid_cost b"
proof (induction rule: reachable.induct)
  case (init us)
  show ?case by (simp add: initial_db_def)
next
  case (step d e uid c d')
  from exec_bookings_valid [OF step.IH step.hyps(2)] show ?case .
qed




section \<open>The default code and pin\<close>

lemma hex_digit_mem: "d < 16 \<Longrightarrow> hex_digit d \<in> set ''0123456789abcdef''"
  unfolding hex_digit_def by (rule nth_mem) simp

lemma high_nibble_less: "unat (drop_bit 4 (b :: 8 word)) < 16"
proof -
  have "unat b < 2 ^ 8" using unsigned_less [of b, where ?'a = nat] by simp
  then have lt: "unat b div 2 ^ 4 < 16" by simp
  have "unat (drop_bit 4 b) = drop_bit 4 (unat b)" by (rule unat_drop_bit_eq)
  also have "\<dots> = unat b div 2 ^ 4" by (rule drop_bit_eq_div)
  finally show ?thesis using lt by simp
qed

lemma low_nibble_less: "unat ((b :: 8 word) AND 15) < 16"
proof -
  have "b AND 15 \<le> 15" by (rule word_and_le1)
  then have "unat (b AND 15) \<le> 15" by (simp add: word_le_nat_alt)
  then show ?thesis by simp
qed

lemma length_encode_hex: "length (encode_hex bs) = 2 * length bs"
  unfolding encode_hex_def by (induction bs) simp_all

lemma set_encode_hex: "set (encode_hex bs) \<subseteq> set ''0123456789abcdef''"
proof -
  have "hex_digit (unat (drop_bit 4 b)) \<in> set ''0123456789abcdef'' \<and>
      hex_digit (unat (b AND 15)) \<in> set ''0123456789abcdef''" for b :: "8 word"
    using hex_digit_mem [OF high_nibble_less [of b]] hex_digit_mem [OF low_nibble_less [of b]]
    by simp
  then show ?thesis unfolding encode_hex_def by (induction bs) auto
qed

lemma length_gen_random_bytes: "length (gen_random_bytes n src) = n"
  by (simp add: gen_random_bytes_def)

lemma digit_char_mem: "d < 10 \<Longrightarrow> digit_char d \<in> set ''0123456789''"
  unfolding digit_char_def by (rule nth_mem) simp

lemma digit_value_digit_char: "d < 10 \<Longrightarrow> digit_value (digit_char d) = d"
proof -
  have "\<forall>d\<in>set [0..<10]. digit_value (digit_char d) = d"
    by (simp add: upt_rec digit_char_def digit_value_def)
  then show "d < 10 \<Longrightarrow> digit_value (digit_char d) = d" by simp
qed

lemma decimal_value_snoc:
  "decimal_value (s @ [c]) = 10 * decimal_value s + digit_value c"
  by (simp add: decimal_value_def)

lemma decimal_value_text_of_nat: "decimal_value (text_of_nat n) = n"
proof (induction n rule: text_of_nat.induct)
  case (1 n)
  show ?case
  proof (cases "n < 10")
    case True
    then show ?thesis
      by (simp add: text_of_nat.simps [of n] decimal_value_def digit_value_digit_char)
  next
    case False
    with 1 have "decimal_value (text_of_nat (n div 10)) = n div 10" by simp
    with False show ?thesis
      by (simp add: text_of_nat.simps [of n] decimal_value_snoc digit_value_digit_char)
  qed
qed

lemma set_text_of_nat: "set (text_of_nat n) \<subseteq> set ''0123456789''"
proof (induction n rule: text_of_nat.induct)
  case (1 n)
  show ?case
  proof (cases "n < 10")
    case True
    with digit_char_mem [of n] show ?thesis by (simp add: text_of_nat.simps [of n])
  next
    case False
    with 1 have "set (text_of_nat (n div 10)) \<subseteq> set ''0123456789''" by simp
    moreover have "digit_char (n mod 10) \<in> set ''0123456789''" by (rule digit_char_mem) simp
    ultimately show ?thesis using False by (simp add: text_of_nat.simps [of n])
  qed
qed

lemma length_text_of_nat: "n < 10 ^ k \<Longrightarrow> 0 < k \<Longrightarrow> length (text_of_nat n) \<le> k"
proof (induction n arbitrary: k rule: text_of_nat.induct)
  case (1 n)
  show ?case
  proof (cases "n < 10")
    case True
    with 1 show ?thesis by (simp add: text_of_nat.simps [of n])
  next
    case False
    with "1.prems" obtain j where k: "k = Suc j" by (cases k) auto
    with False "1.prems" have j: "0 < j" by (cases j) auto
    from "1.prems" k have "n div 10 < 10 ^ j" by (simp add: less_mult_imp_div_less)
    with 1 False j have "length (text_of_nat (n div 10)) \<le> j" by simp
    with False k show ?thesis by (simp add: text_of_nat.simps [of n])
  qed
qed

lemma length_text_of_nat_pos: "0 < length (text_of_nat n)"
  by (subst text_of_nat.simps) simp

lemma lpad_zeros:
  "length s \<le> n \<Longrightarrow> lpad s n ''0'' = replicate (n - length s) CHR ''0'' @ s"
proof -
  have "concat (replicate m ''0'') = replicate m CHR ''0''" for m
    by (induction m) simp_all
  then show "length s \<le> n \<Longrightarrow> lpad s n ''0'' = replicate (n - length s) CHR ''0'' @ s"
    by (simp add: lpad_def)
qed

lemma decimal_value_zeros: "decimal_value (replicate m CHR ''0'' @ s) = decimal_value s"
proof -
  have "foldl (\<lambda>a c. 10 * a + digit_value c) 0 (replicate m CHR ''0'') = 0"
    by (induction m) (simp_all add: digit_value_def)
  then show ?thesis by (simp add: decimal_value_def)
qed

text \<open>The padded text of a number below 10000.\<close>

lemma pad4:
  assumes "k < 10000"
  shows "length (lpad (text_of_nat k) 4 ''0'') = 4"
    and "set (lpad (text_of_nat k) 4 ''0'') \<subseteq> set ''0123456789''"
    and "decimal_value (lpad (text_of_nat k) 4 ''0'') = k"
proof -
  from assms have len: "length (text_of_nat k) \<le> 4"
    using length_text_of_nat [of k 4] by simp
  note p = lpad_zeros [OF len]
  from len show "length (lpad (text_of_nat k) 4 ''0'') = 4" by (simp add: p)
  from set_text_of_nat [of k] show "set (lpad (text_of_nat k) 4 ''0'') \<subseteq> set ''0123456789''"
    by (auto simp: p)
  show "decimal_value (lpad (text_of_nat k) 4 ''0'') = k"
    by (simp add: p decimal_value_zeros decimal_value_text_of_nat)
qed

text \<open>The product \<^verbatim>\<open>random() * 10000\<close> stays below 10000 after rounding.\<close>

lemma bit_length_le: "n < 2 ^ b \<Longrightarrow> bit_length n \<le> b"
proof (induction b arbitrary: n)
  case 0
  then show ?case by (simp add: bit_length.simps)
next
  case (Suc b)
  from Suc.prems have "n div 2 < 2 ^ b" by simp
  from Suc.IH [OF this] show ?case by (subst bit_length.simps) simp
qed

lemma bit_length_gt: "2 ^ b \<le> n \<Longrightarrow> b < bit_length n"
proof (induction b arbitrary: n)
  case 0
  then show ?case by (subst bit_length.simps) simp
next
  case (Suc b)
  from Suc.prems have "2 ^ b \<le> n div 2" by simp
  moreover from Suc.prems have "n \<noteq> 0" by (cases "n = 0") simp_all
  ultimately show ?case using Suc.IH [of "n div 2"] by (subst bit_length.simps) simp
qed

lemma bit_length_eq: "2 ^ b \<le> n \<Longrightarrow> n < 2 ^ Suc b \<Longrightarrow> bit_length n = Suc b"
  using bit_length_gt [of b n] bit_length_le [of n "Suc b"] by simp

lemma round_to_53_bits_le: "2 * round_to_53_bits n \<le> 2 * n + 2 ^ (bit_length n - 53)"
proof -
  define s where "s = bit_length n - 53"
  define q where "q = n div 2 ^ s"
  define r where "r = n mod 2 ^ s"
  have n: "n = q * 2 ^ s + r" unfolding q_def r_def by (rule div_mult_mod_eq [symmetric])
  have eq: "round_to_53_bits n =
      (if s = 0 then n
       else if 2 * r > 2 ^ s \<or> (2 * r = 2 ^ s \<and> odd q) then (q + 1) * 2 ^ s else q * 2 ^ s)"
    unfolding round_to_53_bits_def Let_def s_def q_def r_def by simp
  have up: "2 ^ s \<le> 2 * r \<Longrightarrow> 2 * ((q + 1) * 2 ^ s) \<le> 2 * n + 2 ^ s"
    by (subst n) (simp add: algebra_simps)
  have down: "2 * (q * 2 ^ s) \<le> 2 * n + 2 ^ s"
    by (subst n) simp
  show ?thesis
    unfolding s_def [symmetric] eq using up down by auto
qed

lemma floor_random_times_10000_less:
  assumes "is_unit_double r"
  shows "floor_random_times_10000 r < 10000"
proof -
  from assms have m53: "ud_m r < 2 ^ 53" and mk: "ud_m r < 2 ^ ud_k r"
    by (simp_all add: is_unit_double_def)
  let ?n = "ud_m r * 10000"
  from m53 have "?n < 2 ^ 53 * 2 ^ 14" by simp
  then have "?n < 2 ^ 67" by simp
  from bit_length_le [OF this] have "bit_length ?n - 53 \<le> 14" by simp
  then have "(2::nat) ^ (bit_length ?n - 53) \<le> 2 ^ 14"
    by (rule power_increasing) simp
  with round_to_53_bits_le [of ?n] have le: "2 * round_to_53_bits ?n \<le> 2 * ?n + 16384"
    by simp
  from mk have "ud_m r + 1 \<le> 2 ^ ud_k r" by simp
  then have "(ud_m r + 1) * 20000 \<le> 2 ^ ud_k r * 20000" by (rule mult_le_mono1)
  then have "2 * ?n + 20000 \<le> 20000 * 2 ^ ud_k r" by (simp add: algebra_simps)
  with le have "round_to_53_bits ?n < 10000 * 2 ^ ud_k r" by simp
  then show ?thesis
    unfolding floor_random_times_10000_def by (rule less_mult_imp_div_less)
qed

text \<open>The rounded product has the whole part of the exact product, or one more.\<close>

lemma round_to_53_bits_ge:
  "n div 2 ^ (bit_length n - 53) * 2 ^ (bit_length n - 53) \<le> round_to_53_bits n"
proof -
  have "n div 2 ^ (bit_length n - 53) * 2 ^ (bit_length n - 53) \<le> n"
    by (rule div_times_less_eq_dividend)
  then show ?thesis
    unfolding round_to_53_bits_def Let_def by simp
qed

lemma floor_random_times_10000_exact:
  assumes "is_unit_double r"
  shows "ud_m r * 10000 div 2 ^ ud_k r \<le> floor_random_times_10000 r"
    and "floor_random_times_10000 r \<le> ud_m r * 10000 div 2 ^ ud_k r + 1"
proof -
  from assms have mk: "ud_m r < 2 ^ ud_k r" by (simp add: is_unit_double_def)
  let ?n = "ud_m r * 10000"
  let ?k = "ud_k r"
  define s where "s = bit_length ?n - 53"
  from mk have "?n < 2 ^ ?k * 2 ^ 14" by simp
  then have "?n < 2 ^ (?k + 14)" by (simp add: power_add)
  from bit_length_le [OF this] have sk: "s \<le> ?k" by (simp add: s_def)
  then have k: "(2::nat) ^ ?k = 2 ^ s * 2 ^ (?k - s)" by (simp add: power_add [symmetric])
  have "?n div 2 ^ ?k = ?n div 2 ^ s div 2 ^ (?k - s)"
    by (subst k) (rule div_mult2_eq)
  also have "\<dots> = ?n div 2 ^ s * 2 ^ s div 2 ^ s div 2 ^ (?k - s)" by simp
  also have "\<dots> = ?n div 2 ^ s * 2 ^ s div 2 ^ ?k"
    by (subst k) (rule div_mult2_eq [symmetric])
  also have "\<dots> \<le> round_to_53_bits ?n div 2 ^ ?k"
    using round_to_53_bits_ge [of ?n] unfolding s_def by (rule div_le_mono)
  finally show "?n div 2 ^ ?k \<le> floor_random_times_10000 r"
    by (simp add: floor_random_times_10000_def)
  from sk have "(2::nat) ^ s \<le> 2 ^ ?k" by (rule power_increasing) simp
  moreover from round_to_53_bits_le [of ?n] have "2 * round_to_53_bits ?n \<le> 2 * ?n + 2 ^ s"
    unfolding s_def .
  ultimately have "round_to_53_bits ?n \<le> ?n + 2 ^ ?k" by linarith
  then have "round_to_53_bits ?n div 2 ^ ?k \<le> (?n + 2 ^ ?k) div 2 ^ ?k" by (rule div_le_mono)
  also have "\<dots> = ?n div 2 ^ ?k + 1" by (rule div_add_self2) simp
  finally show "floor_random_times_10000 r \<le> ?n div 2 ^ ?k + 1"
    by (simp add: floor_random_times_10000_def)
qed

lemma pin_default_eq:
  "pin_default e = lpad (text_of_nat (floor_random_times_10000 (env_random e))) 4 ''0''"
  by (simp add: pin_default_def text_of_int_def)

section \<open>The worked run, evaluated\<close>

lemmas ex_defs = ex_db1_def ex_db2_def ex_db3_def ex_db4_def ex_profiles_def ex_spot_row_def
  ex_booking_row_def

lemmas policy_defs = owners_can_manage_their_spots_def users_can_create_bookings_def

lemmas check_defs = valid_slots_def valid_price_def valid_images_def array_length_def
  valid_booking_time_def valid_cost_def

lemmas range_defs = parking_spot_in_range_def booking_in_range_def integer_in_range_def
  decimal_10_2_in_range_def timestamptz_in_range_def timestamptz_option_in_range_def

lemma qr_code_default_ex: "qr_code_default ex_env = ''a0a7aeb5bcc3cad1d8dfe6edf4fb0209''"
  by (simp add: qr_code_default_def ex_env_def gen_random_bytes_def encode_hex_def hex_digit_def upt_rec drop_bit_eq_div)

lemma floor_random_ex: "floor_random_times_10000 \<lparr>ud_m = 1401, ud_k = 15\<rparr> = 427"
  using bit_length_eq [of 23 14010000]
  by (simp add: floor_random_times_10000_def round_to_53_bits_def)

lemma pin_default_ex: "pin_default ex_env = ''0427''"
  by (simp add: pin_default_def ex_env_def floor_random_ex lpad_def text_of_int_def
      text_of_nat.simps digit_char_def)

lemma booking_row_ex: "booking_row ex_env ex_booking = ex_booking_row"
  by (simp add: booking_row_def ex_booking_def ex_booking_row_def qr_code_default_ex pin_default_ex)


lemma insert_booking_ex: "insert_booking ex_env 101 ex_booking ex_db2 = Inr ex_db3"
  by (simp add: insert_booking_Inr booking_row_ex ex_defs policy_defs check_defs range_defs)


lemma insert_auth_user_alice:
  "insert_auth_user alice (initial_db []) =
     Inr ((initial_db [])\<lparr>auth_users := [alice],
       profiles := [\<lparr>pr_id = 101, pr_email = ''alice@example.org'', pr_name = ''alice'',
                     pr_role = Some User\<rparr>]\<rparr>)"
  by (simp add: insert_auth_user_def handle_new_user_def alice_def initial_db_def
      user_role_of_text_def split_part_1_def)

lemma ex_db1_reachable: "reachable ex_db1"
proof -
  have a: "exec ex_env 0 (InsertAuthUser alice) (initial_db []) =
      Inr ((initial_db [])\<lparr>auth_users := [alice], profiles := [hd ex_profiles]\<rparr>)"
    by (simp add: insert_auth_user_def handle_new_user_def alice_def initial_db_def
        user_role_of_text_def split_part_1_def ex_profiles_def)
  have b: "exec ex_env 0 (InsertAuthUser bob)
      ((initial_db [])\<lparr>auth_users := [alice], profiles := [hd ex_profiles]\<rparr>) = Inr ex_db1"
    by (simp add: insert_auth_user_def handle_new_user_def alice_def bob_def initial_db_def
        user_role_of_text_def split_part_1_def ex_profiles_def ex_db1_def)
  from reachable.step [OF reachable.step [OF reachable.init a] b] show ?thesis .
qed

lemma insert_parking_spot_ex: "insert_parking_spot ex_env 102 ex_spot ex_db1 = Inr ex_db2"
  by (simp add: insert_parking_spot_Inr parking_spot_row_def ex_spot_def ex_env_def
      ex_defs policy_defs check_defs range_defs)


lemma ex_db2_reachable: "reachable ex_db2"
proof -
  have "exec ex_env 102 (InsertParkingSpot ex_spot) ex_db1 = Inr ex_db2"
    by (simp add: insert_parking_spot_ex)
  from reachable.step [OF ex_db1_reachable this] show ?thesis .
qed

lemma ex_db3_reachable: "reachable ex_db3"
proof -
  have "exec ex_env 101 (InsertBooking ex_booking) ex_db2 = Inr ex_db3"
    by (simp add: insert_booking_ex)
  from reachable.step [OF ex_db2_reachable this] show ?thesis .
qed


lemma qr_code_default_ex2: "qr_code_default ex_env2 = ''05101b26313c47525d68737e89949faa''"
  by (simp add: qr_code_default_def ex_env2_def gen_random_bytes_def encode_hex_def hex_digit_def upt_rec drop_bit_eq_div)

lemma floor_random_ex2: "floor_random_times_10000 \<lparr>ud_m = 58983, ud_k = 16\<rparr> = 9000"
  using bit_length_eq [of 29 589830000]
  by (simp add: floor_random_times_10000_def round_to_53_bits_def)

lemma pin_default_ex2: "pin_default ex_env2 = ''9000''"
  by (simp add: pin_default_def ex_env2_def floor_random_ex2 lpad_def text_of_int_def
      text_of_nat.simps digit_char_def)

lemma booking_row_ex2: "booking_row ex_env2 ex_booking2 = ex_booking_row2"
  by (simp add: booking_row_def ex_booking2_def ex_booking_row2_def qr_code_default_ex2
      pin_default_ex2) (simp add: ex_env2_def)

lemma insert_booking_ex2: "insert_booking ex_env2 101 ex_booking2 ex_db3 = Inr ex_db3_oversold"
  by (simp add: insert_booking_Inr booking_row_ex2 ex_booking_row2_def ex_db3_oversold_def
      ex_defs policy_defs check_defs range_defs)

lemma spec_capacity_left_ex: "spec_capacity_left ex_db3 201 630 690 = Some 0"
  by (simp add: spec_capacity_left_def spec_concurrent_demand_def spec_overlaps_def ex_defs)

lemma ex_db3_oversold_reachable: "reachable ex_db3_oversold"
proof -
  have "exec ex_env2 101 (InsertBooking ex_booking2) ex_db3 = Inr ex_db3_oversold"
    by (simp add: insert_booking_ex2)
  from reachable.step [OF ex_db3_reachable this] show ?thesis .
qed

lemma booking_row_own_ex: "booking_row ex_env ex_booking_own = ex_booking_row_own"
  by (simp add: booking_row_def ex_booking_own_def ex_booking_row_own_def)

lemma insert_booking_own_ex: "insert_booking ex_env 101 ex_booking_own ex_db3 = Inr ex_db3_own"
  by (simp add: insert_booking_Inr booking_row_own_ex ex_booking_row_own_def ex_db3_own_def
      ex_defs policy_defs check_defs range_defs)

lemma ex_db3_own_reachable: "reachable ex_db3_own"
proof -
  have "exec ex_env 101 (InsertBooking ex_booking_own) ex_db3 = Inr ex_db3_own"
    by (simp add: insert_booking_own_ex)
  from reachable.step [OF ex_db3_reachable this] show ?thesis .
qed

lemma floor_random_rounded_up_ex: "floor_random_times_10000 ex_random_rounded_up = 9985"
  using bit_length_eq [of 61 2810527642455900000]
  by (simp add: floor_random_times_10000_def round_to_53_bits_def ex_random_rounded_up_def)

section \<open>Requests run one after another\<close>

lemma call_passes_row_checks_bookings:
  "call_passes_row_checks (d\<lparr>bookings := bs\<rparr>) c = call_passes_row_checks d c"
  by (cases c) (simp add: call_passes_row_checks_def split: option.splits)

lemma insert_bookings_all:
  assumes "\<forall>c\<in>set cs. call_passes_row_checks d c"
    and "distinct (map (\<lambda>c. b_id (call_row c)) cs)"
    and "distinct (map (\<lambda>c. b_qr_code (call_row c)) cs)"
    and "\<forall>c\<in>set cs. b_id (call_row c) \<notin> set (map b_id (bookings d)) \<and>
           b_qr_code (call_row c) \<notin> set (map b_qr_code (bookings d))"
  shows "insert_bookings cs d =
     (replicate (length cs) True, d\<lparr>bookings := bookings d @ map call_row cs\<rparr>)"
  using assms
proof (induction cs arbitrary: d)
  case Nil
  show ?case by simp
next
  case (Cons c cs)
  obtain e uid i where c: "c = (e, uid, i)" by (cases c)
  let ?d1 = "d\<lparr>bookings := bookings d @ [booking_row e i]\<rparr>"
  from Cons.prems(1,4) c have first: "insert_booking e uid i d = Inr ?d1"
    by (simp add: insert_booking_Inr call_passes_row_checks_def call_row_def
        split: option.splits)
  from Cons.prems(1) have p: "\<forall>c\<in>set cs. call_passes_row_checks ?d1 c"
    by (simp add: call_passes_row_checks_bookings)
  from Cons.prems(2) have d1: "distinct (map (\<lambda>c. b_id (call_row c)) cs)" by simp
  from Cons.prems(3) have d2: "distinct (map (\<lambda>c. b_qr_code (call_row c)) cs)" by simp
  from c have cr: "booking_row e i = call_row c" by (simp add: call_row_def)
  have n1: "\<forall>x\<in>set cs. b_id (call_row x) \<noteq> b_id (call_row c)"
  proof
    fix x
    assume "x \<in> set cs"
    then have "b_id (call_row x) \<in> set (map (\<lambda>c. b_id (call_row c)) cs)" by simp
    with Cons.prems(2) show "b_id (call_row x) \<noteq> b_id (call_row c)" by auto
  qed
  have n2: "\<forall>x\<in>set cs. b_qr_code (call_row x) \<noteq> b_qr_code (call_row c)"
  proof
    fix x
    assume "x \<in> set cs"
    then have "b_qr_code (call_row x) \<in> set (map (\<lambda>c. b_qr_code (call_row c)) cs)" by simp
    with Cons.prems(3) show "b_qr_code (call_row x) \<noteq> b_qr_code (call_row c)" by auto
  qed
  from Cons.prems(4) n1 n2
  have f: "\<forall>c\<in>set cs. b_id (call_row c) \<notin> set (map b_id (bookings ?d1)) \<and>
      b_qr_code (call_row c) \<notin> set (map b_qr_code (bookings ?d1))"
    by (simp add: cr)
  from Cons.IH [OF p d1 d2 f] first c show ?case
    by (simp add: call_row_def)
qed

section \<open>Claims\<close>

text \<open>
  Claim C1, as stated: a reservation on an active resource with a valid interval succeeds
  if and only if \<open>total_units\<close> minus the concurrent demand is at least the units
  requested. It fails on the schema: spot 201 is active and has one slot, held by the
  pending booking of 600..660; the specification's rule leaves 0 units for 630..690, and
  the INSERT of a booking for 630..690 succeeds.
\<close>

theorem booking_beyond_capacity_counterexample:
  "find (\<lambda>s. ps_id s = 201) (parking_spots ex_db3) = Some ex_spot_row \<and>
   ps_is_active ex_spot_row = Some True \<and>
   bi_spot_id ex_booking2 = 201 \<and>
   bi_start_time ex_booking2 = 630 \<and> bi_end_time ex_booking2 = 690 \<and>
   spec_capacity_left ex_db3 201 630 690 = Some 0 \<and>
   insert_booking ex_env2 101 ex_booking2 ex_db3 = Inr ex_db3_oversold"
  by (simp add: insert_booking_ex2 spec_capacity_left_ex)
    (simp add: ex_defs ex_booking2_def)

text \<open>
  Claim C1, amended. An INSERT into \<^verbatim>\<open>bookings\<close> (of the columns of the model, the
  others left to their defaults) succeeds exactly when the values of the row are in the
  ranges of their columns (\<^verbatim>\<open>start_time\<close>, \<^verbatim>\<open>end_time\<close> and
  \<^verbatim>\<open>confirmed_at\<close> in that of \<^verbatim>\<open>timestamptz\<close>, \<^verbatim>\<open>total_cost\<close> in that of
  \<^verbatim>\<open>decimal(10,2)\<close>), the row names the acting user, has \<^verbatim>\<open>end_time > start_time\<close> and
  \<^verbatim>\<open>total_cost > 0\<close>, its id and code are unused, and its user, spot and vehicle exist; it
  then adds that one row. The outcome is the same on any database with the same keys, so
  it does not depend on \<^verbatim>\<open>total_slots\<close>, on \<^verbatim>\<open>is_active\<close>, on the intervals and statuses
  of the stored bookings or on \<^verbatim>\<open>availability_blocks\<close>: the schema computes no concurrent
  demand and has no capacity error. A failed INSERT is an error value, which stores
  nothing.
\<close>

theorem booking_insert_rule:
  "((\<exists>d'. insert_booking e uid i d = Inr d') \<longleftrightarrow>
      timestamptz_in_range (bi_start_time i) \<and> timestamptz_in_range (bi_end_time i) \<and>
      decimal_10_2_in_range (bi_total_cost i) \<and>
      timestamptz_option_in_range (bi_confirmed_at i) \<and>
      bi_user_id i = uid \<and> bi_end_time i > bi_start_time i \<and> bi_total_cost i > 0 \<and>
      b_id (booking_row e i) \<notin> set (map b_id (bookings d)) \<and>
      b_qr_code (booking_row e i) \<notin> set (map b_qr_code (bookings d)) \<and>
      bi_user_id i \<in> set (map pr_id (profiles d)) \<and>
      bi_spot_id i \<in> set (map ps_id (parking_spots d)) \<and>
      (case bi_vehicle_id i of None \<Rightarrow> True | Some v \<Rightarrow> v \<in> set (map v_id (vehicles d)))) \<and>
   (insert_booking e uid i d = Inr d' \<longrightarrow> d' = d\<lparr>bookings := bookings d @ [booking_row e i]\<rparr>) \<and>
   (map b_id (bookings d2) = map b_id (bookings d) \<and>
    map b_qr_code (bookings d2) = map b_qr_code (bookings d) \<and>
    map pr_id (profiles d2) = map pr_id (profiles d) \<and>
    map ps_id (parking_spots d2) = map ps_id (parking_spots d) \<and>
    map v_id (vehicles d2) = map v_id (vehicles d) \<longrightarrow>
      ((\<exists>d'. insert_booking e uid i d2 = Inr d') \<longleftrightarrow>
       (\<exists>d'. insert_booking e uid i d = Inr d')))"
proof (intro conjI)
  show "(\<exists>d'. insert_booking e uid i d = Inr d') \<longleftrightarrow>
      timestamptz_in_range (bi_start_time i) \<and> timestamptz_in_range (bi_end_time i) \<and>
      decimal_10_2_in_range (bi_total_cost i) \<and>
      timestamptz_option_in_range (bi_confirmed_at i) \<and>
      bi_user_id i = uid \<and> bi_end_time i > bi_start_time i \<and> bi_total_cost i > 0 \<and>
      b_id (booking_row e i) \<notin> set (map b_id (bookings d)) \<and>
      b_qr_code (booking_row e i) \<notin> set (map b_qr_code (bookings d)) \<and>
      bi_user_id i \<in> set (map pr_id (profiles d)) \<and>
      bi_spot_id i \<in> set (map ps_id (parking_spots d)) \<and>
      (case bi_vehicle_id i of None \<Rightarrow> True | Some v \<Rightarrow> v \<in> set (map v_id (vehicles d)))"
    unfolding insert_booking_Inr
    by (auto simp: users_can_create_bookings_def valid_booking_time_def valid_cost_def
        booking_in_range_def booking_row_def split: option.splits)
  show "insert_booking e uid i d = Inr d' \<longrightarrow> d' = d\<lparr>bookings := bookings d @ [booking_row e i]\<rparr>"
    by (simp add: insert_booking_Inr)
  show "map b_id (bookings d2) = map b_id (bookings d) \<and>
    map b_qr_code (bookings d2) = map b_qr_code (bookings d) \<and>
    map pr_id (profiles d2) = map pr_id (profiles d) \<and>
    map ps_id (parking_spots d2) = map ps_id (parking_spots d) \<and>
    map v_id (vehicles d2) = map v_id (vehicles d) \<longrightarrow>
      ((\<exists>d'. insert_booking e uid i d2 = Inr d') \<longleftrightarrow>
       (\<exists>d'. insert_booking e uid i d = Inr d'))"
    unfolding insert_booking_Inr by simp
qed

theorem booking_insert_rule_witness:
  "(\<exists>d'. insert_booking ex_env2 101 ex_booking2 ex_db3 = Inr d') \<and>
   decimal_10_2_in_range (bi_total_cost ex_booking2) \<and>
   bi_user_id ex_booking2 = 101 \<and> bi_end_time ex_booking2 > bi_start_time ex_booking2 \<and>
   bi_total_cost ex_booking2 > 0 \<and>
   ex_db3_oversold = ex_db3\<lparr>bookings := bookings ex_db3 @ [booking_row ex_env2 ex_booking2]\<rparr> \<and>
   map b_id (bookings (ex_db3\<lparr>bookings := [ex_booking_row\<lparr>b_status := Some Cancelled\<rparr>]\<rparr>)) =
     map b_id (bookings ex_db3) \<and>
   map b_qr_code (bookings (ex_db3\<lparr>bookings := [ex_booking_row\<lparr>b_status := Some Cancelled\<rparr>]\<rparr>)) =
     map b_qr_code (bookings ex_db3) \<and>
   (\<exists>d'. insert_booking ex_env2 101 ex_booking2
      (ex_db3\<lparr>bookings := [ex_booking_row\<lparr>b_status := Some Cancelled\<rparr>]\<rparr>) = Inr d') \<and>
   \<not> decimal_10_2_in_range (bi_total_cost (ex_booking2\<lparr>bi_total_cost := 10000000000\<rparr>)) \<and>
   \<not> (\<exists>d'. insert_booking ex_env2 101 (ex_booking2\<lparr>bi_total_cost := 10000000000\<rparr>) ex_db3 = Inr d')"
proof -
  let ?d2 = "ex_db3\<lparr>bookings := [ex_booking_row\<lparr>b_status := Some Cancelled\<rparr>]\<rparr>"
  let ?big = "ex_booking2\<lparr>bi_total_cost := 10000000000\<rparr>"
  have ok: "\<exists>d'. insert_booking ex_env2 101 ex_booking2 ex_db3 = Inr d'"
    using insert_booking_ex2 by blast
  have same: "map b_id (bookings ?d2) = map b_id (bookings ex_db3) \<and>
      map b_qr_code (bookings ?d2) = map b_qr_code (bookings ex_db3) \<and>
      map pr_id (profiles ?d2) = map pr_id (profiles ex_db3) \<and>
      map ps_id (parking_spots ?d2) = map ps_id (parking_spots ex_db3) \<and>
      map v_id (vehicles ?d2) = map v_id (vehicles ex_db3)"
    by (simp add: ex_db3_def)
  have big: "\<not> decimal_10_2_in_range (bi_total_cost ?big)"
    by (simp add: decimal_10_2_in_range_def)
  from booking_insert_rule [of ex_env2 101 ?big ex_db3] big
  have no: "\<not> (\<exists>d'. insert_booking ex_env2 101 ?big ex_db3 = Inr d')" by blast
  from booking_insert_rule [of ex_env2 101 ex_booking2 ex_db3 ex_db3_oversold ?d2]
    insert_booking_ex2 ok same big no
  show ?thesis by blast
qed

text \<open>
  Claim C2, as stated: of the requests for overlapping intervals on the same resource that
  together ask for more than the capacity, only as many succeed as the capacity allows,
  and two such requests never both succeed. It fails on the schema: spot 201 has one
  slot and no booking; the requests for 600..660 and for 630..690 both succeed, in
  either order.
\<close>

theorem overlapping_requests_both_succeed_counterexample:
  "parking_spots ex_db2 = [ex_spot_row] \<and> ps_total_slots ex_spot_row = 1 \<and>
   ps_available_slots ex_spot_row = 1 \<and> bookings ex_db2 = [] \<and>
   bi_spot_id ex_booking = 201 \<and> bi_spot_id ex_booking2 = 201 \<and>
   spec_overlaps (bi_start_time ex_booking) (bi_end_time ex_booking)
     (bi_start_time ex_booking2) (bi_end_time ex_booking2) \<and>
   insert_bookings [(ex_env, 101, ex_booking), (ex_env2, 101, ex_booking2)] ex_db2 =
     ([True, True], ex_db3_oversold) \<and>
   insert_bookings [(ex_env2, 101, ex_booking2), (ex_env, 101, ex_booking)] ex_db2 =
     ([True, True], ex_db2\<lparr>bookings := [ex_booking_row2, ex_booking_row]\<rparr>)"
proof -
  have a: "insert_booking ex_env2 101 ex_booking2 ex_db2 =
      Inr (ex_db2\<lparr>bookings := [ex_booking_row2]\<rparr>)"
    by (simp add: insert_booking_Inr booking_row_ex2 ex_booking_row2_def
        ex_defs policy_defs check_defs range_defs)
  have b: "insert_booking ex_env 101 ex_booking (ex_db2\<lparr>bookings := [ex_booking_row2]\<rparr>) =
      Inr (ex_db2\<lparr>bookings := [ex_booking_row2, ex_booking_row]\<rparr>)"
    by (simp add: insert_booking_Inr booking_row_ex ex_booking_row2_def
        ex_defs policy_defs check_defs range_defs)
  have c: "parking_spots ex_db2 = [ex_spot_row] \<and> ps_total_slots ex_spot_row = 1 \<and>
      ps_available_slots ex_spot_row = 1 \<and> bookings ex_db2 = [] \<and>
      bi_spot_id ex_booking = 201 \<and> bi_spot_id ex_booking2 = 201 \<and>
      spec_overlaps (bi_start_time ex_booking) (bi_end_time ex_booking)
        (bi_start_time ex_booking2) (bi_end_time ex_booking2)"
    by (simp add: ex_db2_def ex_db1_def ex_spot_row_def ex_booking_def ex_booking2_def
        spec_overlaps_def)
  show ?thesis
    by (simp add: c insert_booking_ex insert_booking_ex2 a b)
qed

text \<open>
  Claim C2, amended. Requests for bookings, run one after another in any order, all
  succeed when each row passes the checks on the row itself (the ranges of its columns,
  the acting user, \<^verbatim>\<open>end_time > start_time\<close>, \<^verbatim>\<open>total_cost > 0\<close>, and a user, a spot and
  a vehicle that exist) and the ids and codes of the rows differ from each other and from
  the stored ones. The conditions read neither the slots of the spot nor the intervals
  of the other requests: the number of successes is the number of requests, whatever the
  capacity, and every row is stored. The schema has no capacity error.
\<close>

theorem booking_requests_all_succeed:
  assumes "\<forall>c\<in>set cs. call_passes_row_checks d c"
    and "distinct (map (\<lambda>c. b_id (call_row c)) cs)"
    and "distinct (map (\<lambda>c. b_qr_code (call_row c)) cs)"
    and "\<forall>c\<in>set cs. b_id (call_row c) \<notin> set (map b_id (bookings d)) \<and>
           b_qr_code (call_row c) \<notin> set (map b_qr_code (bookings d))"
    and "mset cs' = mset cs"
  shows "insert_bookings cs' d =
     (replicate (length cs) True, d\<lparr>bookings := bookings d @ map call_row cs'\<rparr>)"
proof -
  from assms(5) have s: "set cs' = set cs" by (rule mset_eq_setD)
  from assms(5) have l: "length cs' = length cs" by (rule mset_eq_length)
  from assms(5) have "mset (map (\<lambda>c. b_id (call_row c)) cs') =
      mset (map (\<lambda>c. b_id (call_row c)) cs)" by simp
  from mset_eq_imp_distinct_iff [OF this] assms(2)
  have d1: "distinct (map (\<lambda>c. b_id (call_row c)) cs')" by simp
  from assms(5) have "mset (map (\<lambda>c. b_qr_code (call_row c)) cs') =
      mset (map (\<lambda>c. b_qr_code (call_row c)) cs)" by simp
  from mset_eq_imp_distinct_iff [OF this] assms(3)
  have d2: "distinct (map (\<lambda>c. b_qr_code (call_row c)) cs')" by simp
  from insert_bookings_all [of cs' d] assms(1,4) d1 d2 s l show ?thesis by simp
qed

theorem booking_requests_all_succeed_witness:
  "call_passes_row_checks ex_db2 (ex_env, 101, ex_booking) \<and>
   call_passes_row_checks ex_db2 (ex_env2, 101, ex_booking2) \<and>
   call_row (ex_env, 101, ex_booking) = ex_booking_row \<and>
   call_row (ex_env2, 101, ex_booking2) = ex_booking_row2 \<and>
   b_id ex_booking_row \<noteq> b_id ex_booking_row2 \<and>
   b_qr_code ex_booking_row \<noteq> b_qr_code ex_booking_row2 \<and>
   ps_total_slots ex_spot_row = 1 \<and>
   insert_bookings [(ex_env2, 101, ex_booking2), (ex_env, 101, ex_booking)] ex_db2 =
     ([True, True], ex_db2\<lparr>bookings := [ex_booking_row2, ex_booking_row]\<rparr>)"
proof -
  have r: "call_row (ex_env, 101, ex_booking) = ex_booking_row"
    "call_row (ex_env2, 101, ex_booking2) = ex_booking_row2"
    by (simp_all add: call_row_def booking_row_ex booking_row_ex2)
  have p: "call_passes_row_checks ex_db2 (ex_env, 101, ex_booking)"
    "call_passes_row_checks ex_db2 (ex_env2, 101, ex_booking2)"
    by (simp_all add: call_passes_row_checks_def booking_row_ex booking_row_ex2
        ex_booking_row2_def ex_defs policy_defs check_defs range_defs)
  have k: "b_id ex_booking_row \<noteq> b_id ex_booking_row2"
    "b_qr_code ex_booking_row \<noteq> b_qr_code ex_booking_row2"
    by (simp_all add: ex_booking_row_def ex_booking_row2_def)
  have e: "bookings ex_db2 = []" by (simp add: ex_db2_def ex_db1_def)
  have t: "ps_total_slots ex_spot_row = 1" by (simp add: ex_spot_row_def)
  from booking_requests_all_succeed
    [of "[(ex_env, 101, ex_booking), (ex_env2, 101, ex_booking2)]" ex_db2
      "[(ex_env2, 101, ex_booking2), (ex_env, 101, ex_booking)]"]
    r p k e
  have "insert_bookings [(ex_env2, 101, ex_booking2), (ex_env, 101, ex_booking)] ex_db2 =
      ([True, True], ex_db2\<lparr>bookings := [ex_booking_row2, ex_booking_row]\<rparr>)"
    by (simp add: numeral_2_eq_2)
  with r p k t show ?thesis by simp
qed

text \<open>
  Claim C3 says that the changes of status of the transition table are possible, among
  them the cancellation of a pending booking. The migration lets the user of a pending
  booking and the owner of its spot update it (the policies "Users can update their
  pending bookings" and "Spot owners can update booking status"), yet every UPDATE of
  \<^verbatim>\<open>bookings\<close> ends in the error of the recursive policy "Admins can read all
  profiles", whoever runs it and whatever it sets. Here booking 301 is pending, its user
  101 cancels it, and the owner 102 of its spot confirms it: both statements raise the
  error, and the status stays as it is.
\<close>

theorem booking_update_raises_policy_recursion:
  "reachable ex_db3 \<and> bookings ex_db3 = [ex_booking_row] \<and>
   b_id ex_booking_row = 301 \<and> b_user_id ex_booking_row = 101 \<and>
   b_status ex_booking_row = Some Pending \<and>
   exec ex_env 101 (UpdateBooking 301 (\<lambda>b. b\<lparr>b_status := Some Cancelled\<rparr>)) ex_db3 =
     Inl (PolicyRecursion Profiles) \<and>
   exec ex_env 102 (UpdateBooking 301 (\<lambda>b. b\<lparr>b_status := Some Confirmed\<rparr>)) ex_db3 =
     Inl (PolicyRecursion Profiles) \<and>
   update_booking uid bid f d = Inl (PolicyRecursion Profiles)"
  by (simp add: ex_db3_reachable update_booking_recursion)
    (simp add: ex_db3_def ex_booking_row_def)

text \<open>
  Claim C4, as stated: the code of every booking is the hexadecimal text of 16 random
  bytes. It fails on the schema: \<^verbatim>\<open>qr_code\<close> is a column of the INSERT, and the policy
  "Users can create bookings" reads only \<^verbatim>\<open>user_id\<close>; the booking inserted with the code
  \<^verbatim>\<open>x\<close> is stored with it, pending, in a reachable database, and no 16 bytes have this
  text.
\<close>

theorem client_code_stored_counterexample:
  "insert_booking ex_env 101 ex_booking_own ex_db3 = Inr ex_db3_own \<and>
   reachable ex_db3_own \<and>
   bookings ex_db3_own = [ex_booking_row, ex_booking_row_own] \<and>
   b_status ex_booking_row_own = Some Pending \<and>
   b_qr_code ex_booking_row_own = ''x'' \<and>
   \<not> (\<exists>bs. length bs = 16 \<and> encode_hex bs = b_qr_code ex_booking_row_own)"
proof -
  have "encode_hex bs \<noteq> ''x''" if "length bs = 16" for bs
    using length_encode_hex [of bs] that by auto
  then show ?thesis
    by (simp add: insert_booking_own_ex ex_db3_own_reachable)
      (simp add: ex_db3_own_def ex_booking_row_own_def)
qed

text \<open>
  Claim C4, amended. In every reachable database the codes of the stored bookings are
  pairwise different (\<^verbatim>\<open>qr_code\<close> is UNIQUE over all bookings, so over the non-terminal
  ones too). A successful INSERT stores one row; its code is the one the INSERT gives,
  and when the INSERT leaves \<^verbatim>\<open>qr_code\<close> to its default it is
  \<^verbatim>\<open>encode(gen_random_bytes(16), 'hex')\<close>: the hexadecimal text, 32 characters long, of 16
  bytes of the random source. The source is a parameter of the model; the function
  \<^verbatim>\<open>generate_booking_code()\<close> gives no code.
\<close>

theorem booking_code_rule:
  "(reachable d \<longrightarrow>
      distinct (map b_qr_code (bookings d)) \<and>
      (\<forall>b1\<in>set (bookings d). \<forall>b2\<in>set (bookings d). b1 \<noteq> b2 \<longrightarrow> b_qr_code b1 \<noteq> b_qr_code b2)) \<and>
   (insert_booking e uid i d0 = Inr d' \<longrightarrow>
      (\<exists>b. bookings d' = bookings d0 @ [b] \<and>
           b_qr_code b =
             (case bi_qr_code i of
                DEFAULT \<Rightarrow> encode_hex (gen_random_bytes 16 (env_bytes e))
              | Given c \<Rightarrow> c))) \<and>
   length (gen_random_bytes 16 (env_bytes e)) = 16 \<and>
   length (encode_hex (gen_random_bytes 16 (env_bytes e))) = 32 \<and>
   set (encode_hex (gen_random_bytes 16 (env_bytes e))) \<subseteq> set ''0123456789abcdef''"
proof (intro conjI impI)
  assume r: "reachable d"
  from reachable_booking_keys [OF r] show dist: "distinct (map b_qr_code (bookings d))" by simp
  then have "inj_on b_qr_code (set (bookings d))" by (simp add: distinct_map)
  then show "\<forall>b1\<in>set (bookings d). \<forall>b2\<in>set (bookings d). b1 \<noteq> b2 \<longrightarrow> b_qr_code b1 \<noteq> b_qr_code b2"
    by (auto dest: inj_onD)
next
  assume "insert_booking e uid i d0 = Inr d'"
  then have "bookings d' = bookings d0 @ [booking_row e i]" by (simp add: insert_booking_Inr)
  moreover have "b_qr_code (booking_row e i) =
      (case bi_qr_code i of
         DEFAULT \<Rightarrow> encode_hex (gen_random_bytes 16 (env_bytes e))
       | Given c \<Rightarrow> c)"
    by (cases "bi_qr_code i") (simp_all add: booking_row_def qr_code_default_def)
  ultimately show "\<exists>b. bookings d' = bookings d0 @ [b] \<and>
      b_qr_code b =
        (case bi_qr_code i of
           DEFAULT \<Rightarrow> encode_hex (gen_random_bytes 16 (env_bytes e))
         | Given c \<Rightarrow> c)"
    by blast
next
  show "length (gen_random_bytes 16 (env_bytes e)) = 16" by (rule length_gen_random_bytes)
  show "length (encode_hex (gen_random_bytes 16 (env_bytes e))) = 32"
    by (simp add: length_encode_hex length_gen_random_bytes)
  show "set (encode_hex (gen_random_bytes 16 (env_bytes e))) \<subseteq> set ''0123456789abcdef''"
    by (rule set_encode_hex)
qed

theorem booking_code_rule_witness:
  "reachable ex_db3_oversold \<and> bookings ex_db3_oversold = [ex_booking_row, ex_booking_row2] \<and>
   ex_booking_row \<noteq> ex_booking_row2 \<and> b_qr_code ex_booking_row \<noteq> b_qr_code ex_booking_row2 \<and>
   insert_booking ex_env2 101 ex_booking2 ex_db3 = Inr ex_db3_oversold \<and>
   bi_qr_code ex_booking2 = DEFAULT \<and>
   (\<exists>b. bookings ex_db3_oversold = bookings ex_db3 @ [b] \<and>
        b_qr_code b = encode_hex (gen_random_bytes 16 (env_bytes ex_env2))) \<and>
   insert_booking ex_env 101 ex_booking_own ex_db3 = Inr ex_db3_own \<and>
   bi_qr_code ex_booking_own = Given ''x'' \<and>
   (\<exists>b. bookings ex_db3_own = bookings ex_db3 @ [b] \<and> b_qr_code b = ''x'')"
proof -
  have b: "bookings ex_db3_oversold = [ex_booking_row, ex_booking_row2]"
    by (simp add: ex_db3_oversold_def)
  have ne: "ex_booking_row \<noteq> ex_booking_row2"
    by (simp add: ex_booking_row_def ex_booking_row2_def)
  have df: "bi_qr_code ex_booking2 = DEFAULT" by (simp add: ex_booking2_def)
  have gv: "bi_qr_code ex_booking_own = Given ''x''" by (simp add: ex_booking_own_def)
  from booking_code_rule [of ex_db3_oversold ex_env2 101 ex_booking2 ex_db3 ex_db3_oversold]
    ex_db3_oversold_reachable insert_booking_ex2
  have u: "\<forall>b1\<in>set (bookings ex_db3_oversold). \<forall>b2\<in>set (bookings ex_db3_oversold).
           b1 \<noteq> b2 \<longrightarrow> b_qr_code b1 \<noteq> b_qr_code b2"
    and a: "\<exists>b. bookings ex_db3_oversold = bookings ex_db3 @ [b] \<and>
        b_qr_code b =
          (case bi_qr_code ex_booking2 of
             DEFAULT \<Rightarrow> encode_hex (gen_random_bytes 16 (env_bytes ex_env2))
           | Given c \<Rightarrow> c)"
    by blast+
  from booking_code_rule [of ex_db3_oversold ex_env 101 ex_booking_own ex_db3 ex_db3_own]
    insert_booking_own_ex
  have c: "\<exists>b. bookings ex_db3_own = bookings ex_db3 @ [b] \<and>
        b_qr_code b =
          (case bi_qr_code ex_booking_own of
             DEFAULT \<Rightarrow> encode_hex (gen_random_bytes 16 (env_bytes ex_env))
           | Given c \<Rightarrow> c)"
    by blast
  from u b ne have k: "b_qr_code ex_booking_row \<noteq> b_qr_code ex_booking_row2" by simp
  from a have a': "\<exists>b. bookings ex_db3_oversold = bookings ex_db3 @ [b] \<and>
        b_qr_code b = encode_hex (gen_random_bytes 16 (env_bytes ex_env2))"
    by (simp add: df)
  from c have c': "\<exists>b. bookings ex_db3_own = bookings ex_db3 @ [b] \<and> b_qr_code b = ''x''"
    by (simp add: gv)
  from k a' c' b ne df gv ex_db3_oversold_reachable insert_booking_ex2 insert_booking_own_ex
  show ?thesis by blast
qed



text \<open>
  Claim C7, as stated: the pin of every booking is four decimal digits, and its value is
  uniform on 0..9999. It fails on the schema: \<^verbatim>\<open>pin\<close> is a column of the INSERT, and the
  booking inserted with the pin \<^verbatim>\<open>abcde\<close> is stored with it in a reachable database.
  Nor is the value of the default the whole part of \<open>r * 10000\<close> for every \<open>r\<close> that
  \<^verbatim>\<open>random()\<close> can give: the product is a \<^verbatim>\<open>double precision\<close> number, and for
  \<open>r = 281052764245590 / 2 ^ 48\<close>, where \<open>r * 10000 < 9985\<close>, it is rounded to 9985.
\<close>

theorem client_pin_stored_counterexample:
  "insert_booking ex_env 101 ex_booking_own ex_db3 = Inr ex_db3_own \<and>
   reachable ex_db3_own \<and>
   bookings ex_db3_own = [ex_booking_row, ex_booking_row_own] \<and>
   b_pin ex_booking_row_own = ''abcde'' \<and> length (b_pin ex_booking_row_own) = 5 \<and>
   is_unit_double ex_random_rounded_up \<and>
   ud_m ex_random_rounded_up * 10000 div 2 ^ ud_k ex_random_rounded_up = 9984 \<and>
   floor_random_times_10000 ex_random_rounded_up = 9985"
  by (simp add: insert_booking_own_ex ex_db3_own_reachable floor_random_rounded_up_ex)
    (simp add: ex_db3_own_def ex_booking_row_own_def ex_random_rounded_up_def
      is_unit_double_def)

text \<open>
  Claim C7, amended. A successful INSERT stores one row; its pin is the one the INSERT
  gives, and when the INSERT leaves \<^verbatim>\<open>pin\<close> to its default it is
  \<^verbatim>\<open>lpad(floor(random() * 10000)::text, 4, '0')\<close>. For every \<^verbatim>\<open>double precision\<close> value
  \<open>r\<close> of \<^verbatim>\<open>random()\<close> in \<open>[0, 1)\<close> the default is a string of exactly four decimal
  digits; the number it denotes is the whole part of the product as \<^verbatim>\<open>double precision\<close>
  computes it, which is between 0 and 9999 and is the whole part of \<open>r * 10000\<close> or one
  more. Nothing is said of the distribution.
\<close>

theorem booking_pin_rule:
  assumes "is_unit_double (env_random e)"
  shows "length (pin_default e) = 4 \<and>
     set (pin_default e) \<subseteq> set ''0123456789'' \<and>
     decimal_value (pin_default e) = floor_random_times_10000 (env_random e) \<and>
     floor_random_times_10000 (env_random e) \<le> 9999 \<and>
     ud_m (env_random e) * 10000 div 2 ^ ud_k (env_random e) \<le>
       floor_random_times_10000 (env_random e) \<and>
     floor_random_times_10000 (env_random e) \<le>
       ud_m (env_random e) * 10000 div 2 ^ ud_k (env_random e) + 1 \<and>
     (insert_booking e uid i d = Inr d' \<longrightarrow>
        (\<exists>b. bookings d' = bookings d @ [b] \<and>
             b_pin b = (case bi_pin i of DEFAULT \<Rightarrow> pin_default e | Given p \<Rightarrow> p)))"
proof -
  let ?n = "floor_random_times_10000 (env_random e)"
  from floor_random_times_10000_less [OF assms] have n: "?n < 10000" .
  then have le: "?n \<le> 9999" by simp
  have row: "\<exists>b. bookings d' = bookings d @ [b] \<and>
      b_pin b = (case bi_pin i of DEFAULT \<Rightarrow> pin_default e | Given p \<Rightarrow> p)"
    if "insert_booking e uid i d = Inr d'"
  proof -
    from that have "bookings d' = bookings d @ [booking_row e i]"
      by (simp add: insert_booking_Inr)
    moreover have "b_pin (booking_row e i) =
        (case bi_pin i of DEFAULT \<Rightarrow> pin_default e | Given p \<Rightarrow> p)"
      by (cases "bi_pin i") (simp_all add: booking_row_def)
    ultimately show ?thesis by blast
  qed
  from pad4 [OF n] le floor_random_times_10000_exact [OF assms] row
  show ?thesis unfolding pin_default_eq by blast
qed

theorem booking_pin_rule_witness:
  "is_unit_double (env_random ex_env) \<and>
   pin_default ex_env = ''0427'' \<and> length (pin_default ex_env) = 4 \<and>
   decimal_value (pin_default ex_env) = 427 \<and>
   floor_random_times_10000 (env_random ex_env) = 427 \<and>
   insert_booking ex_env 101 ex_booking ex_db2 = Inr ex_db3 \<and>
   bi_pin ex_booking = DEFAULT \<and>
   (\<exists>b. bookings ex_db3 = bookings ex_db2 @ [b] \<and> b_pin b = ''0427'') \<and>
   insert_booking ex_env 101 ex_booking_own ex_db3 = Inr ex_db3_own \<and>
   bi_pin ex_booking_own = Given ''abcde'' \<and>
   (\<exists>b. bookings ex_db3_own = bookings ex_db3 @ [b] \<and> b_pin b = ''abcde'')"
proof -
  have r: "is_unit_double (env_random ex_env)" by (simp add: ex_env_def is_unit_double_def)
  have f: "floor_random_times_10000 (env_random ex_env) = 427"
    by (simp add: ex_env_def floor_random_ex)
  have df: "bi_pin ex_booking = DEFAULT" by (simp add: ex_booking_def)
  have gv: "bi_pin ex_booking_own = Given ''abcde''" by (simp add: ex_booking_own_def)
  from booking_pin_rule [OF r, of 101 ex_booking ex_db2 ex_db3] insert_booking_ex
  have a: "length (pin_default ex_env) = 4"
    and v: "decimal_value (pin_default ex_env) = floor_random_times_10000 (env_random ex_env)"
    and b: "\<exists>b. bookings ex_db3 = bookings ex_db2 @ [b] \<and>
        b_pin b = (case bi_pin ex_booking of DEFAULT \<Rightarrow> pin_default ex_env | Given p \<Rightarrow> p)"
    by blast+
  from booking_pin_rule [OF r, of 101 ex_booking_own ex_db3 ex_db3_own] insert_booking_own_ex
  have c: "\<exists>b. bookings ex_db3_own = bookings ex_db3 @ [b] \<and>
        b_pin b = (case bi_pin ex_booking_own of DEFAULT \<Rightarrow> pin_default ex_env | Given p \<Rightarrow> p)"
    by blast
  from b have b': "\<exists>b. bookings ex_db3 = bookings ex_db2 @ [b] \<and> b_pin b = ''0427''"
    by (simp add: df pin_default_ex)
  from c have c': "\<exists>b. bookings ex_db3_own = bookings ex_db3 @ [b] \<and> b_pin b = ''abcde''"
    by (simp add: gv)
  from v f have v': "decimal_value (pin_default ex_env) = 427" by simp
  from r a v' f b' c' df gv pin_default_ex insert_booking_ex insert_booking_own_ex
  show ?thesis by blast
qed

text \<open>
  Claim C8. Every booking row of a reachable database has \<^verbatim>\<open>end_time > start_time\<close> and
  \<^verbatim>\<open>total_cost > 0\<close> (the constraints \<^verbatim>\<open>valid_booking_time\<close> and \<^verbatim>\<open>valid_cost\<close>, checked
  on every write of a row), and an INSERT of a row that breaks either one ends in an
  error, which stores nothing.
\<close>

theorem booking_interval_and_cost:
  "(reachable d \<longrightarrow>
      (\<forall>b\<in>set (bookings d). b_end_time b > b_start_time b \<and> b_total_cost b > 0)) \<and>
   (\<not> (bi_end_time i > bi_start_time i \<and> bi_total_cost i > 0) \<longrightarrow>
      (\<exists>err. insert_booking e uid i d0 = Inl err))"
proof (intro conjI impI)
  assume "reachable d"
  then have "\<forall>b\<in>set (bookings d). valid_booking_time b \<and> valid_cost b"
    by (rule reachable_bookings_valid)
  then show "\<forall>b\<in>set (bookings d). b_end_time b > b_start_time b \<and> b_total_cost b > 0"
    by (simp add: valid_booking_time_def valid_cost_def)
next
  assume "\<not> (bi_end_time i > bi_start_time i \<and> bi_total_cost i > 0)"
  then have "\<not> (valid_booking_time (booking_row e i) \<and> valid_cost (booking_row e i))"
    by (simp add: valid_booking_time_def valid_cost_def booking_row_def)
  then have "insert_booking e uid i d0 \<noteq> Inr d'" for d'
    by (auto simp: insert_booking_Inr)
  then show "\<exists>err. insert_booking e uid i d0 = Inl err"
    by (cases "insert_booking e uid i d0") auto
qed

theorem booking_interval_and_cost_witness:
  "reachable ex_db3 \<and> bookings ex_db3 = [ex_booking_row] \<and>
   b_end_time ex_booking_row > b_start_time ex_booking_row \<and> b_total_cost ex_booking_row > 0 \<and>
   \<not> (bi_end_time (ex_booking\<lparr>bi_end_time := 600\<rparr>) > bi_start_time (ex_booking\<lparr>bi_end_time := 600\<rparr>) \<and>
      bi_total_cost (ex_booking\<lparr>bi_end_time := 600\<rparr>) > 0) \<and>
   (\<exists>err. insert_booking ex_env 101 (ex_booking\<lparr>bi_end_time := 600\<rparr>) ex_db2 = Inl err)"
  using booking_interval_and_cost [of ex_db3 "ex_booking\<lparr>bi_end_time := 600\<rparr>" ex_env 101 ex_db2]
    ex_db3_reachable
  by (simp add: ex_defs ex_booking_def)

text \<open>
  Claim C9, as stated: no profile state changes in reaction to a row that an external
  system inserts. It fails on the schema: the trigger \<^verbatim>\<open>on_auth_user_created\<close> runs
  \<^verbatim>\<open>handle_new_user()\<close> after every insert into \<^verbatim>\<open>auth.users\<close>, and the sign-up of
  \<open>alice\<close> on the empty database leaves a profile row.
\<close>

theorem signup_creates_profile_counterexample:
  "profiles (initial_db []) = [] \<and>
   insert_auth_user alice (initial_db []) =
     Inr ((initial_db [])\<lparr>auth_users := [alice],
       profiles := [\<lparr>pr_id = 101, pr_email = ''alice@example.org'', pr_name = ''alice'',
                     pr_role = Some User\<rparr>]\<rparr>)"
  by (simp add: insert_auth_user_alice) (simp add: initial_db_def)

text \<open>
  Claim C9, amended. A successful insert into \<^verbatim>\<open>auth.users\<close> adds, through the trigger
  and in the same statement, exactly one profile row: the new user's id and email, the
  name of the metadata or else the part of the email before the \<open>@\<close>, the role of the
  metadata or else \<^verbatim>\<open>user\<close>. It changes no table of the booking engine. No other
  statement adds a profile row (\<^verbatim>\<open>profiles\<close> has no INSERT policy).
\<close>

theorem signup_creates_profile:
  "(insert_auth_user new d = Inr d' \<longrightarrow>
      auth_users d' = auth_users d @ [new] \<and>
      (\<exists>email role.
         au_email new = Some email \<and>
         user_role_of_text (case map_of (au_raw_user_meta_data new) ''role'' of
                              Some r \<Rightarrow> r | None \<Rightarrow> ''user'') = Some role \<and>
         profiles d' = profiles d @
           [\<lparr>pr_id = au_id new, pr_email = email,
             pr_name = (case map_of (au_raw_user_meta_data new) ''name'' of
                          Some n \<Rightarrow> n | None \<Rightarrow> split_part_1 email CHR ''@''),
             pr_role = Some role\<rparr>]) \<and>
      parking_spots d' = parking_spots d \<and> vehicles d' = vehicles d \<and>
      bookings d' = bookings d \<and> payment_slips d' = payment_slips d \<and>
      reviews d' = reviews d \<and> availability_blocks d' = availability_blocks d) \<and>
   (exec e uid c d0 = Inr d1 \<and> length (profiles d1) > length (profiles d0) \<longrightarrow> (\<exists>u. c = InsertAuthUser u))"
proof (intro conjI impI)
  assume h: "insert_auth_user new d = Inr d'"
  then have fresh: "au_id new \<notin> set (map au_id (auth_users d))"
    and t: "handle_new_user new (d\<lparr>auth_users := auth_users d @ [new]\<rparr>) = Inr d'"
    unfolding insert_auth_user_def by (auto split: if_splits)
  from handle_new_user_Inr [OF t]
  have eq: "d' = d\<lparr>auth_users := auth_users d @ [new], profiles := profiles d'\<rparr>" by simp
  have sel: "auth_users (d\<lparr>auth_users := auth_users d @ [new], profiles := ps\<rparr>) = auth_users d @ [new] \<and>
      parking_spots (d\<lparr>auth_users := auth_users d @ [new], profiles := ps\<rparr>) = parking_spots d \<and>
      vehicles (d\<lparr>auth_users := auth_users d @ [new], profiles := ps\<rparr>) = vehicles d \<and>
      bookings (d\<lparr>auth_users := auth_users d @ [new], profiles := ps\<rparr>) = bookings d \<and>
      payment_slips (d\<lparr>auth_users := auth_users d @ [new], profiles := ps\<rparr>) = payment_slips d \<and>
      reviews (d\<lparr>auth_users := auth_users d @ [new], profiles := ps\<rparr>) = reviews d \<and>
      availability_blocks (d\<lparr>auth_users := auth_users d @ [new], profiles := ps\<rparr>) =
        availability_blocks d" for ps
    by simp
  from sel [of "profiles d'"] eq
  show "auth_users d' = auth_users d @ [new]" "parking_spots d' = parking_spots d"
    "vehicles d' = vehicles d" "bookings d' = bookings d" "payment_slips d' = payment_slips d"
    "reviews d' = reviews d" "availability_blocks d' = availability_blocks d"
    by metis+
  from handle_new_user_profile [OF t]
  show "\<exists>email role.
         au_email new = Some email \<and>
         user_role_of_text (case map_of (au_raw_user_meta_data new) ''role'' of
                              Some r \<Rightarrow> r | None \<Rightarrow> ''user'') = Some role \<and>
         profiles d' = profiles d @
           [\<lparr>pr_id = au_id new, pr_email = email,
             pr_name = (case map_of (au_raw_user_meta_data new) ''name'' of
                          Some n \<Rightarrow> n | None \<Rightarrow> split_part_1 email CHR ''@''),
             pr_role = Some role\<rparr>]"
    by simp
next
  assume "exec e uid c d0 = Inr d1 \<and> length (profiles d1) > length (profiles d0)"
  with exec_profiles_frame [of e uid c d0 d1] show "\<exists>u. c = InsertAuthUser u" by auto
qed

theorem signup_creates_profile_witness:
  "insert_auth_user alice (initial_db []) =
     Inr ((initial_db [])\<lparr>auth_users := [alice],
       profiles := [\<lparr>pr_id = 101, pr_email = ''alice@example.org'', pr_name = ''alice'',
                     pr_role = Some User\<rparr>]\<rparr>) \<and>
   bookings ((initial_db [])\<lparr>auth_users := [alice],
       profiles := [\<lparr>pr_id = 101, pr_email = ''alice@example.org'', pr_name = ''alice'',
                     pr_role = Some User\<rparr>]\<rparr>) = bookings (initial_db []) \<and>
   exec ex_env 0 (InsertAuthUser alice) (initial_db []) =
     Inr ((initial_db [])\<lparr>auth_users := [alice],
       profiles := [\<lparr>pr_id = 101, pr_email = ''alice@example.org'', pr_name = ''alice'',
                     pr_role = Some User\<rparr>]\<rparr>) \<and>
   length (profiles ((initial_db [])\<lparr>auth_users := [alice],
       profiles := [\<lparr>pr_id = 101, pr_email = ''alice@example.org'', pr_name = ''alice'',
                     pr_role = Some User\<rparr>]\<rparr>)) > length (profiles (initial_db [])) \<and>
   (\<exists>u. InsertAuthUser alice = InsertAuthUser u)"
proof -
  let ?d1 = "(initial_db [])\<lparr>auth_users := [alice],
       profiles := [\<lparr>pr_id = 101, pr_email = ''alice@example.org'', pr_name = ''alice'',
                     pr_role = Some User\<rparr>]\<rparr>"
  have x: "exec ex_env 0 (InsertAuthUser alice) (initial_db []) = Inr ?d1"
    by (simp add: insert_auth_user_alice)
  have p: "length (profiles ?d1) > length (profiles (initial_db []))" by (simp add: initial_db_def)
  from signup_creates_profile [of alice "initial_db []" ?d1 ex_env 0 "InsertAuthUser alice"
      "initial_db []" ?d1] insert_auth_user_alice x p
  show ?thesis by blast
qed



end
